theory Spec2Isabelle
  imports Complex_Main "HOL-Library.AList" "HOL-Library.Sublist"
begin

section \<open>Python values produced by the JSON decoder\<close>

text \<open>
  \<^verbatim>\<open>json.loads\<close> turns a response text into a Python object: \<^verbatim>\<open>None\<close>, a
  \<^verbatim>\<open>bool\<close>, an \<^verbatim>\<open>int\<close>, a \<^verbatim>\<open>float\<close>, a \<^verbatim>\<open>str\<close>, a \<^verbatim>\<open>list\<close> or a
  \<^verbatim>\<open>dict\<close> with string keys. A \<^verbatim>\<open>str\<close> is modelled by its UTF-8 bytes, a
  \<^verbatim>\<open>float\<close> by the literal that denotes it (no claim computes with floats), and a
  \<^verbatim>\<open>dict\<close> by its items in insertion order; \<open>map_of\<close> is the lookup and
  \<open>AList.update\<close> the assignment \<^verbatim>\<open>d[k] = v\<close> (overwrite in place, or append).
\<close>

datatype json =
    JNull
  | JBool bool
  | JInt int
  | JFloat string
  | JStr string
  | JList "json list"
  | JDict "(string \<times> json) list"

section \<open>The schema: \<^verbatim>\<open>SalesAngle\<close> and \<^verbatim>\<open>StrategyOutput\<close>\<close>

text \<open>
  \<^verbatim>\<open>
  class SalesAngle(BaseModel):
      avatar_name: str = Field(..., description=...)
      pain_point_addressed: str = Field(..., description=...)
      persuasive_copy: str = Field(..., description=...)

  class StrategyOutput(BaseModel):
      main_pain_points: List[str] = Field(..., description=...)
      sales_angles: List[SalesAngle] = Field(..., description=...)
  \<close>
  Every field is required (\<^verbatim>\<open>Field(...)\<close>) and carries a description only: no length
  constraint, no default, no model configuration.
\<close>

record SalesAngle =
  avatar_name :: string
  pain_point_addressed :: string
  persuasive_copy :: string

record StrategyOutput =
  main_pain_points :: "string list"
  sales_angles :: "SalesAngle list"

section \<open>Validation errors\<close>

text \<open>
  A pydantic \<^verbatim>\<open>ValidationError\<close> carries one line per violation: the location (a path
  of field names and list indices), the error type and the offending input.
\<close>

datatype loc_item = Key string | Idx nat

datatype error_type = missing | string_type | list_type | model_type

datatype line_error = LineError (loc: "loc_item list") (etype: error_type) (input: json)

type_synonym 'a validated = "line_error list + 'a"

definition at_loc :: "loc_item \<Rightarrow> 'a validated \<Rightarrow> 'a validated" where
  "at_loc p r =
     (case r of
        Inl es \<Rightarrow> Inl (map (\<lambda>e. LineError (p # loc e) (etype e) (input e)) es)
      | Inr x \<Rightarrow> Inr x)"

definition errors_of :: "'a validated \<Rightarrow> line_error list" where
  "errors_of r = (case r of Inl es \<Rightarrow> es | Inr _ \<Rightarrow> [])"

section \<open>\<^verbatim>\<open>model_validate\<close> for the two models\<close>

text \<open>A \<^verbatim>\<open>str\<close> field takes a string as it is; nothing else is coerced to one.\<close>

definition validate_str :: "json \<Rightarrow> string validated" where
  "validate_str v = (case v of JStr s \<Rightarrow> Inr s | _ \<Rightarrow> Inl [LineError [] string_type v])"

text \<open>
  A list validator runs the item validator on every item, collects the errors of all of
  them under the item's index, and succeeds when there is none.
\<close>

fun validate_items :: "(json \<Rightarrow> 'a validated) \<Rightarrow> nat \<Rightarrow> json list \<Rightarrow> 'a list validated" where
  "validate_items f i [] = Inr []"
| "validate_items f i (x # xs) =
     (case (at_loc (Idx i) (f x), validate_items f (Suc i) xs) of
        (Inr y, Inr ys) \<Rightarrow> Inr (y # ys)
      | (r, rs) \<Rightarrow> Inl (errors_of r @ errors_of rs))"

definition validate_list :: "(json \<Rightarrow> 'a validated) \<Rightarrow> json \<Rightarrow> 'a list validated" where
  "validate_list f v =
     (case v of JList xs \<Rightarrow> validate_items f 0 xs | _ \<Rightarrow> Inl [LineError [] list_type v])"

text \<open>
  A required field: looked up by its name in the input dict; absent, it is a
  \<open>missing\<close> error whose input is the dict; present, its value goes to the field's
  validator. Keys that name no field are never looked at.
\<close>

definition validate_field ::
  "(string \<times> json) list \<Rightarrow> string \<Rightarrow> (json \<Rightarrow> 'a validated) \<Rightarrow> 'a validated" where
  "validate_field d name f =
     (case map_of d name of
        None \<Rightarrow> Inl [LineError [Key name] missing (JDict d)]
      | Some v \<Rightarrow> at_loc (Key name) (f v))"

definition SalesAngle_model_validate :: "json \<Rightarrow> SalesAngle validated" where
  "SalesAngle_model_validate v =
     (case v of
        JDict d \<Rightarrow>
          (let r1 = validate_field d ''avatar_name'' validate_str;
               r2 = validate_field d ''pain_point_addressed'' validate_str;
               r3 = validate_field d ''persuasive_copy'' validate_str
           in case (r1, r2, r3) of
                (Inr a, Inr p, Inr c) \<Rightarrow>
                  Inr \<lparr>avatar_name = a, pain_point_addressed = p, persuasive_copy = c\<rparr>
              | _ \<Rightarrow> Inl (errors_of r1 @ errors_of r2 @ errors_of r3))
      | _ \<Rightarrow> Inl [LineError [] model_type v])"

definition StrategyOutput_model_validate :: "json \<Rightarrow> StrategyOutput validated" where
  "StrategyOutput_model_validate v =
     (case v of
        JDict d \<Rightarrow>
          (let r1 = validate_field d ''main_pain_points'' (validate_list validate_str);
               r2 = validate_field d ''sales_angles'' (validate_list SalesAngle_model_validate)
           in case (r1, r2) of
                (Inr ps, Inr as) \<Rightarrow> Inr \<lparr>main_pain_points = ps, sales_angles = as\<rparr>
              | _ \<Rightarrow> Inl (errors_of r1 @ errors_of r2))
      | _ \<Rightarrow> Inl [LineError [] model_type v])"

section \<open>The JSON decoder\<close>

text \<open>
  \<^verbatim>\<open>json.loads\<close> belongs to the Python standard library, so the pipeline below takes
  the decoder as a parameter and every theorem about the pipeline holds for any decoder.
  \<open>json_loads\<close> is the decoder the application runs with, on the grammar the library
  accepts: JSON, and the literals \<^verbatim>\<open>NaN\<close>, \<^verbatim>\<open>Infinity\<close> and \<^verbatim>\<open>-Infinity\<close>. It
  stands in for the parameter wherever a concrete response text is evaluated. The
  interpreter's resource limits (recursion depth, digits of an integer) are not part of it.
\<close>

text \<open>Whitespace between tokens: space, tab, line feed, carriage return.\<close>

definition is_ws :: "char \<Rightarrow> bool" where
  "is_ws c \<longleftrightarrow> c = CHR '' '' \<or> c = CHR 0x09 \<or> c = CHR 0x0A \<or> c = CHR 0x0D"

definition skip_ws :: "string \<Rightarrow> string" where
  "skip_ws s = dropWhile is_ws s"

definition is_digit :: "char \<Rightarrow> bool" where
  "is_digit c \<longleftrightarrow> (48::nat) \<le> of_char c \<and> of_char c \<le> (57::nat)"

text \<open>
  A string body, read after its opening quote up to the closing one. A backslash
  introduces one of the eight short escapes or \<^verbatim>\<open>\uXXXX\<close> with four hexadecimal
  digits; a raw control character (below \<^verbatim>\<open>0x20\<close>) is refused. The result is the
  list of units read: a byte taken as it is, or the 16-bit value of a \<^verbatim>\<open>\u\<close> escape.
\<close>

definition hex_digit :: "char \<Rightarrow> nat option" where
  "hex_digit c =
     (let n = (of_char c :: nat) in
      if 48 \<le> n \<and> n \<le> 57 then Some (n - 48)
      else if 65 \<le> n \<and> n \<le> 70 then Some (n - 55)
      else if 97 \<le> n \<and> n \<le> 102 then Some (n - 87)
      else None)"

definition hex4 :: "char \<Rightarrow> char \<Rightarrow> char \<Rightarrow> char \<Rightarrow> nat option" where
  "hex4 a b c d =
     (case (hex_digit a, hex_digit b, hex_digit c, hex_digit d) of
        (Some w, Some x, Some y, Some z) \<Rightarrow> Some (((w * 16 + x) * 16 + y) * 16 + z)
      | _ \<Rightarrow> None)"

definition backslash :: "char \<Rightarrow> char option" where
  "backslash e =
     (if e = CHR 0x22 then Some (CHR 0x22)
      else if e = CHR 0x5C then Some (CHR 0x5C)
      else if e = CHR ''/'' then Some (CHR ''/'')
      else if e = CHR ''b'' then Some (CHR 0x08)
      else if e = CHR ''f'' then Some (CHR 0x0C)
      else if e = CHR ''n'' then Some (CHR 0x0A)
      else if e = CHR ''r'' then Some (CHR 0x0D)
      else if e = CHR ''t'' then Some (CHR 0x09)
      else None)"

datatype cunit = Lit char | U16 nat

fun scanstring :: "string \<Rightarrow> (cunit list \<times> string) option" where
  "scanstring [] = None"
| "scanstring (c # cs) =
     (if c = CHR 0x22 then Some ([], cs)
      else if c = CHR 0x5C then
        (case cs of
           [] \<Rightarrow> None
         | e # r \<Rightarrow>
             if e = CHR ''u'' then
               (case r of
                  h1 # h2 # h3 # h4 # r' \<Rightarrow>
                    (case hex4 h1 h2 h3 h4 of
                       None \<Rightarrow> None
                     | Some n \<Rightarrow> map_option (\<lambda>(u, t). (U16 n # u, t)) (scanstring r'))
                | _ \<Rightarrow> None)
             else
               (case backslash e of
                  None \<Rightarrow> None
                | Some ch \<Rightarrow> map_option (\<lambda>(u, t). (Lit ch # u, t)) (scanstring r)))
      else if of_char c < (0x20::nat) then None
      else map_option (\<lambda>(u, t). (Lit c # u, t)) (scanstring cs))"

text \<open>
  The units become the string: a high surrogate immediately followed by a low one is one
  code point; every code point is written in UTF-8.
\<close>

definition utf8 :: "nat \<Rightarrow> string" where
  "utf8 n =
     (if n < 0x80 then [char_of n]
      else if n < 0x800 then [char_of (0xC0 + n div 64), char_of (0x80 + n mod 64)]
      else if n < 0x10000 then
        [char_of (0xE0 + n div 4096), char_of (0x80 + n div 64 mod 64), char_of (0x80 + n mod 64)]
      else
        [char_of (0xF0 + n div 262144), char_of (0x80 + n div 4096 mod 64),
         char_of (0x80 + n div 64 mod 64), char_of (0x80 + n mod 64)])"

fun join_units :: "cunit list \<Rightarrow> string" where
  "join_units [] = []"
| "join_units (Lit c # us) = c # join_units us"
| "join_units (U16 hi # U16 lo # us) =
     (if 0xD800 \<le> hi \<and> hi \<le> 0xDBFF \<and> 0xDC00 \<le> lo \<and> lo \<le> 0xDFFF
      then utf8 (0x10000 + (hi - 0xD800) * 1024 + (lo - 0xDC00)) @ join_units us
      else utf8 hi @ join_units (U16 lo # us))"
| "join_units (U16 n # us) = utf8 n @ join_units us"

text \<open>
  A number is the longest match of
  \<^verbatim>\<open>-?(0|[1-9][0-9]*)(\.[0-9]+)?([eE][-+]?[0-9]+)?\<close>: an \<^verbatim>\<open>int\<close> when neither the
  fraction nor the exponent is there, a \<^verbatim>\<open>float\<close> otherwise.
\<close>

definition int_of_digits :: "string \<Rightarrow> int" where
  "int_of_digits ds = foldl (\<lambda>a c. 10 * a + (int (of_char c) - 48)) 0 ds"

definition match_sign :: "string \<Rightarrow> string \<times> string" where
  "match_sign s = (case s of [] \<Rightarrow> ([], s) | c # r \<Rightarrow> if c = CHR ''-'' then ([c], r) else ([], s))"

definition match_integer :: "string \<Rightarrow> (string \<times> string) option" where
  "match_integer s =
     (case s of
        [] \<Rightarrow> None
      | d # r \<Rightarrow>
          if d = CHR ''0'' then Some ([d], r)
          else if is_digit d then Some (d # takeWhile is_digit r, dropWhile is_digit r)
          else None)"

definition match_frac :: "string \<Rightarrow> string \<times> string" where
  "match_frac s =
     (case s of
        p # f # r \<Rightarrow>
          if p = CHR ''.'' \<and> is_digit f
          then (p # f # takeWhile is_digit r, dropWhile is_digit r)
          else ([], s)
      | _ \<Rightarrow> ([], s))"

definition match_exp_sign :: "string \<Rightarrow> string \<times> string" where
  "match_exp_sign s =
     (case s of
        [] \<Rightarrow> ([], s)
      | g # r \<Rightarrow> if g = CHR ''+'' \<or> g = CHR ''-'' then ([g], r) else ([], s))"

definition match_exp :: "string \<Rightarrow> string \<times> string" where
  "match_exp s =
     (case s of
        [] \<Rightarrow> ([], s)
      | e # r \<Rightarrow>
          if e = CHR ''e'' \<or> e = CHR ''E'' then
            (case snd (match_exp_sign r) of
               [] \<Rightarrow> ([], s)
             | x # t \<Rightarrow>
                 if is_digit x
                 then (e # fst (match_exp_sign r) @ x # takeWhile is_digit t, dropWhile is_digit t)
                 else ([], s))
          else ([], s))"

definition match_number :: "string \<Rightarrow> (json \<times> string) option" where
  "match_number s =
     (case match_integer (snd (match_sign s)) of
        None \<Rightarrow> None
      | Some (ip, s2) \<Rightarrow>
          let sign = fst (match_sign s);
              frac = fst (match_frac s2);
              ex = fst (match_exp (snd (match_frac s2)));
              rest = snd (match_exp (snd (match_frac s2)))
          in if frac = [] \<and> ex = []
             then Some (JInt (if sign = [] then int_of_digits ip else - int_of_digits ip), rest)
             else Some (JFloat (sign @ ip @ frac @ ex), rest))"

definition strip_prefix :: "string \<Rightarrow> string \<Rightarrow> string option" where
  "strip_prefix p s = (if take (length p) s = p then Some (drop (length p) s) else None)"

definition literal :: "string \<Rightarrow> json \<Rightarrow> string \<Rightarrow> (json \<times> string) option" where
  "literal p v s = map_option (Pair v) (strip_prefix p s)"

definition orelse :: "'a option \<Rightarrow> 'a option \<Rightarrow> 'a option" where
  "orelse a b = (case a of None \<Rightarrow> b | Some x \<Rightarrow> Some x)"

definition scan_scalar :: "string \<Rightarrow> (json \<times> string) option" where
  "scan_scalar s =
     orelse (literal ''null'' JNull s)
    (orelse (literal ''true'' (JBool True) s)
    (orelse (literal ''false'' (JBool False) s)
    (orelse (match_number s)
    (orelse (literal ''NaN'' (JFloat ''NaN'') s)
    (orelse (literal ''Infinity'' (JFloat ''Infinity'') s)
            (literal ''-Infinity'' (JFloat ''-Infinity'') s))))))"

text \<open>An object key: a string, then a colon, with whitespace allowed around the colon.\<close>

definition scan_key :: "string \<Rightarrow> (string \<times> string) option" where
  "scan_key s =
     (case s of
        [] \<Rightarrow> None
      | q # r1 \<Rightarrow>
          if q \<noteq> CHR 0x22 then None
          else (case scanstring r1 of
                  None \<Rightarrow> None
                | Some (u, r2) \<Rightarrow>
                    (case skip_ws r2 of
                       [] \<Rightarrow> None
                     | c # r3 \<Rightarrow>
                         if c = CHR '':'' then Some (join_units u, skip_ws r3) else None)))"

text \<open>
  The decoder proper. \<open>decode_value\<close> expects a value at the head of the text;
  \<open>decode_after\<close> has just read one and looks at what follows. The stack holds the
  containers that are still open: an array with the items read so far (latest first), an
  object with the dict built so far and the key whose value is being read. Every call
  has a shorter text than its caller.
\<close>

datatype frame = InArray "json list" | InObject "(string \<times> json) list" string

function decode_value :: "frame list \<Rightarrow> string \<Rightarrow> json option"
  and decode_after :: "frame list \<Rightarrow> json \<Rightarrow> string \<Rightarrow> json option" where
  "decode_value st [] = None"
| "decode_value st (c # cs) =
         (if c = CHR 0x22 then
            (case scanstring cs of
               None \<Rightarrow> None
             | Some (u, r) \<Rightarrow> decode_after st (JStr (join_units u)) r)
          else if c = CHR ''{'' then
            (case skip_ws cs of
               [] \<Rightarrow> None
             | e # r \<Rightarrow>
                 if e = CHR ''}'' then decode_after st (JDict []) r
                 else (case scan_key (e # r) of
                         None \<Rightarrow> None
                       | Some (k, r') \<Rightarrow> decode_value (InObject [] k # st) r'))
          else if c = CHR ''['' then
            (case skip_ws cs of
               [] \<Rightarrow> None
             | e # r \<Rightarrow>
                 if e = CHR '']'' then decode_after st (JList []) r
                 else decode_value (InArray [] # st) (e # r))
          else
            (case scan_scalar (c # cs) of
               None \<Rightarrow> None
             | Some (v, r) \<Rightarrow> decode_after st v r))"
| "decode_after [] v s = (if skip_ws s = [] then Some v else None)"
| "decode_after (InArray xs # st) v s =
     (case skip_ws s of
        [] \<Rightarrow> None
      | c # r \<Rightarrow>
          if c = CHR '']'' then decode_after st (JList (rev (v # xs))) r
          else if c = CHR '','' then decode_value (InArray (v # xs) # st) (skip_ws r)
          else None)"
| "decode_after (InObject d k # st) v s =
     (case skip_ws s of
        [] \<Rightarrow> None
      | c # r \<Rightarrow>
          if c = CHR ''}'' then decode_after st (JDict (AList.update k v d)) r
          else if c = CHR '','' then
            (case scan_key (skip_ws r) of
               None \<Rightarrow> None
             | Some (k', r') \<Rightarrow> decode_value (InObject (AList.update k v d) k' # st) r')
          else None)"
  by pat_completeness auto

text \<open>
  \<^verbatim>\<open>json.loads(s)\<close>: a text starting with a byte order mark is refused; whitespace may
  surround the value; anything else after it is an error.
\<close>

datatype exn = ValidationError "line_error list" | JSONDecodeError | OtherException string

definition json_loads :: "string \<Rightarrow> exn + json" where
  "json_loads s =
     (if take 3 s = [CHR 0xEF, CHR 0xBB, CHR 0xBF] then Inl JSONDecodeError
      else case decode_value [] (skip_ws s) of
             None \<Rightarrow> Inl JSONDecodeError
           | Some v \<Rightarrow> Inr v)"

section \<open>The prompt\<close>

text \<open>
  The prompt is one f-string with four holes: the product name (twice), the reviews and
  \<^verbatim>\<open>json.dumps(json_schema, indent=2)\<close>. The five pieces of fixed text between the
  holes are given line by line, in UTF-8. The schema text is what pydantic generates from
  the two classes; it is a parameter here.
\<close>

definition prompt_opening :: string where
  "prompt_opening =
     [CHR 0x0A]
     @ ''                Act'' @ [CHR 0xC3, CHR 0xBA]
         @ ''a como un experto en Direct Response Marketing (DRM) con 10 a''
         @ [CHR 0xC3, CHR 0xB1] @ ''os de experiencia.'' @ [CHR 0x0A]
     @ ''                Tu tarea es analizar las rese'' @ [CHR 0xC3, CHR 0xB1]
         @ ''as de la competencia para un producto similar al: '' @ [CHR 0x22]"

definition prompt_reviews_heading :: string where
  "prompt_reviews_heading =
     [CHR 0x22] @ ''.'' @ [CHR 0x0A]
     @ [CHR 0x0A]
     @ ''                RESE'' @ [CHR 0xC3, CHR 0x91] @ ''AS A ANALIZAR:'' @ [CHR 0x0A]
     @ ''                ---'' @ [CHR 0x0A]
     @ ''                ''"

definition prompt_instructions :: string where
  "prompt_instructions =
     [CHR 0x0A]
     @ ''                ---'' @ [CHR 0x0A]
     @ [CHR 0x0A]
     @ ''                Instrucciones:'' @ [CHR 0x0A]
     @ ''                1. **Detecta los dolores principales del cliente** (al menos 3) que se mencionan o se infieren de las rese''
         @ [CHR 0xC3, CHR 0xB1] @ ''as.'' @ [CHR 0x0A]
     @ ''                2. **Crea 3 '' @ [CHR 0x27, CHR 0xC3, CHR 0x81] @ ''ngulos de Venta''
         @ [CHR 0x27] @ '' (Avatares) distintos** basados en estos dolores. Cada ''
         @ [CHR 0xC3, CHR 0xA1] @ ''ngulo debe representar un tipo de cliente con una objeci''
         @ [CHR 0xC3, CHR 0xB3] @ ''n o necesidad espec'' @ [CHR 0xC3, CHR 0xAD]
         @ ''fica (ej: '' @ [CHR 0x27] @ ''El Esc'' @ [CHR 0xC3, CHR 0xA9] @ ''ptico''
         @ [CHR 0x27] @ '', '' @ [CHR 0x27] @ ''El Usuario Intensivo'' @ [CHR 0x27] @ '', ''
         @ [CHR 0x27] @ ''El Buscador de Valor'' @ [CHR 0x27] @ '').'' @ [CHR 0x0A]
     @ ''                3. Para cada '' @ [CHR 0xC3, CHR 0xA1] @ ''ngulo, escribe un **p''
         @ [CHR 0xC3, CHR 0xA1]
         @ ''rrafo persuasivo de venta** (3-5 frases) que hable directamente al dolor de ese avatar y posicione el producto ''
         @ [CHR 0x22]"

definition prompt_schema_heading :: string where
  "prompt_schema_heading =
     [CHR 0x22] @ '' como la soluci'' @ [CHR 0xC3, CHR 0xB3]
         @ ''n definitiva. El tono debe ser de venta directa y convincente.'' @ [CHR 0x0A]
     @ ''                4. Tu respuesta DEBE ser un objeto JSON que se ajuste estrictamente al siguiente esquema: ''"

definition prompt_closing :: string where
  "prompt_closing =
     [CHR 0x0A]
     @ ''                ''"

definition prompt :: "string \<Rightarrow> string \<Rightarrow> string \<Rightarrow> string" where
  "prompt product_name competitor_reviews json_schema_text =
     prompt_opening @ product_name @ prompt_reviews_heading @ competitor_reviews
     @ prompt_instructions @ product_name @ prompt_schema_heading @ json_schema_text
     @ prompt_closing"

section \<open>The completion call\<close>

record chat_message =
  role :: string
  content :: string

record chat_request =
  model :: string
  response_format :: "(string \<times> string) list"
  messages :: "chat_message list"
  temperature :: real

definition system_content :: string where
  "system_content =
     ''You are an expert Direct Response Marketing strategist. You ''
     @ ''must output a valid JSON object that strictly adheres to the''
     @ '' user-provided schema.''"

definition completion_request :: "string \<Rightarrow> chat_request" where
  "completion_request user_prompt =
     \<lparr>model = ''gpt-4o'',
      response_format = [(''type'', ''json_object'')],
      messages = [\<lparr>role = ''system'', content = system_content\<rparr>,
                  \<lparr>role = ''user'', content = user_prompt\<rparr>],
      temperature = 0.8\<rparr>"

text \<open>
  The client is external: \<open>create\<close> maps the request to an exception or to the
  response, of which the code reads \<^verbatim>\<open>choices[0].message.content\<close> only. A response
  is modelled by the contents of its choices, each a string or \<^verbatim>\<open>None\<close>.
\<close>

type_synonym completion_client = "chat_request \<Rightarrow> exn + string option list"

type_synonym json_decoder = "string \<Rightarrow> exn + json"

definition first_choice_content :: "string option list \<Rightarrow> exn + string option" where
  "first_choice_content choices =
     (case choices of
        [] \<Rightarrow> Inl (OtherException ''list index out of range'')
      | c # _ \<Rightarrow> Inr c)"

section \<open>Parsing and validating the response\<close>

text \<open>
  \<^verbatim>\<open>
  response_json = json.loads(response.choices[0].message.content)
  strategy_output = StrategyOutput.model_validate(response_json)
  \<close>
  \<^verbatim>\<open>json.loads(None)\<close> raises a \<^verbatim>\<open>TypeError\<close>; a failed validation raises the
  \<^verbatim>\<open>ValidationError\<close> with its lines.
\<close>

definition parse_and_validate :: "json_decoder \<Rightarrow> string option \<Rightarrow> exn + StrategyOutput" where
  "parse_and_validate loads message_content =
     (case message_content of
        None \<Rightarrow> Inl (OtherException ''the JSON object must be str, bytes or bytearray, not NoneType'')
      | Some text \<Rightarrow>
          (case loads text of
             Inl e \<Rightarrow> Inl e
           | Inr response_json \<Rightarrow>
               (case StrategyOutput_model_validate response_json of
                  Inl es \<Rightarrow> Inl (ValidationError es)
                | Inr strategy_output \<Rightarrow> Inr strategy_output)))"

section \<open>Session state and the button handler\<close>

text \<open>
  \<^verbatim>\<open>st.session_state\<close> holds two keys of interest, \<^verbatim>\<open>'strategy'\<close> and
  \<^verbatim>\<open>'angles'\<close>; a key that was never assigned is \<open>None\<close>.
\<close>

record session_state =
  strategy :: "StrategyOutput option"
  angles :: "(string \<times> SalesAngle) list option"

text \<open>
  \<^verbatim>\<open>{angle.avatar_name: angle for angle in strategy_output.sales_angles}\<close>: the angles
  are taken in order and each is assigned under its name.
\<close>

definition angles_by_name :: "SalesAngle list \<Rightarrow> (string \<times> SalesAngle) list" where
  "angles_by_name as = foldl (\<lambda>d angle. AList.update (avatar_name angle) angle d) [] as"

text \<open>
  What the user is told. The five messages of the handler, in the order of the source:
  the missing-input error, the success notice, and the three \<^verbatim>\<open>except\<close> clauses
  (\<^verbatim>\<open>ValidationError\<close> with its details, \<^verbatim>\<open>json.JSONDecodeError\<close>, and any other
  \<^verbatim>\<open>Exception\<close> with its text). They are named after the error kinds of the
  specification.
\<close>

datatype report =
    MissingInput
  | Success
  | SchemaViolation "line_error list"
  | MalformedOutput
  | TransportFailure string

text \<open>The \<^verbatim>\<open>except\<close> clauses, tried in the order they are written.\<close>

definition on_exception :: "exn \<Rightarrow> report" where
  "on_exception e =
     (case e of
        ValidationError es \<Rightarrow> SchemaViolation es
      | JSONDecodeError \<Rightarrow> MalformedOutput
      | OtherException msg \<Rightarrow> TransportFailure msg)"

text \<open>The body of the \<^verbatim>\<open>try\<close> up to the validated output.\<close>

definition request_strategy ::
  "json_decoder \<Rightarrow> completion_client \<Rightarrow> string \<Rightarrow> string \<Rightarrow> string \<Rightarrow> exn + StrategyOutput" where
  "request_strategy loads create json_schema_text product_name competitor_reviews =
     (case create (completion_request (prompt product_name competitor_reviews json_schema_text)) of
        Inl e \<Rightarrow> Inl e
      | Inr choices \<Rightarrow>
          (case first_choice_content choices of
             Inl e \<Rightarrow> Inl e
           | Inr message_content \<Rightarrow> parse_and_validate loads message_content))"

text \<open>
  One press of the button. \<open>stopped\<close> records \<^verbatim>\<open>st.stop()\<close>, which ends the script
  run in each \<^verbatim>\<open>except\<close> clause; after the missing-input error and after a success
  the script goes on to the output section.
\<close>

record outcome =
  state :: session_state
  message :: report
  stopped :: bool

definition generate_strategy ::
  "json_decoder \<Rightarrow> completion_client \<Rightarrow> string \<Rightarrow> session_state \<Rightarrow> string \<Rightarrow> string \<Rightarrow> outcome" where
  "generate_strategy loads create json_schema_text st product_name competitor_reviews =
     (if product_name = [] \<or> competitor_reviews = [] then
        \<lparr>state = st, message = MissingInput, stopped = False\<rparr>
      else
        case request_strategy loads create json_schema_text product_name competitor_reviews of
          Inr strategy_output \<Rightarrow>
            \<lparr>state = st\<lparr>strategy := Some strategy_output,
                         angles := Some (angles_by_name (sales_angles strategy_output))\<rparr>,
             message = Success, stopped = False\<rparr>
        | Inl e \<Rightarrow> \<lparr>state = st, message = on_exception e, stopped = True\<rparr>)"

section \<open>The output section: the Shopify hero template\<close>

text \<open>
  \<^verbatim>\<open>angle_options = list(st.session_state['angles'].keys())\<close> and
  \<^verbatim>\<open>st.session_state['angles'][selected_angle_name]\<close>.
\<close>

definition angle_options :: "(string \<times> SalesAngle) list \<Rightarrow> string list" where
  "angle_options d = map fst d"

definition selected_angle :: "(string \<times> SalesAngle) list \<Rightarrow> string \<Rightarrow> SalesAngle option" where
  "selected_angle d selected_angle_name = map_of d selected_angle_name"

definition shopify_title :: "SalesAngle \<Rightarrow> string \<Rightarrow> string" where
  "shopify_title angle product_name =
     [CHR 0xC2, CHR 0xA1] @ avatar_name angle @ '' Resuelto! El '' @ product_name"

definition shopify_json_data :: "SalesAngle \<Rightarrow> string \<Rightarrow> json" where
  "shopify_json_data angle product_name =
     JDict
       [(''type'', JStr ''hero_section''),
        (''name'', JStr ''Hero Section - Generated by AI''),
        (''settings'', JList
           [JDict [(''type'', JStr ''text''),
                   (''id'', JStr ''heading''),
                   (''label'', JStr ''Heading''),
                   (''default'', JStr (shopify_title angle product_name))],
            JDict [(''type'', JStr ''textarea''),
                   (''id'', JStr ''text''),
                   (''label'', JStr ''Text''),
                   (''default'', JStr (persuasive_copy angle))],
            JDict [(''type'', JStr ''url''),
                   (''id'', JStr ''button_link''),
                   (''label'', JStr ''Button link'')],
            JDict [(''type'', JStr ''text''),
                   (''id'', JStr ''button_label''),
                   (''label'', JStr ''Button label''),
                   (''default'', JStr ''Comprar Ahora'')]])]"

section \<open>The JSON encoder\<close>

text \<open>
  \<^verbatim>\<open>json.dumps\<close> with \<^verbatim>\<open>ensure_ascii=False\<close>. A string is written between quotes, with the
  quote, the backslash and the control characters escaped: the five short escapes where
  there is one, \<^verbatim>\<open>\u00XX\<close> with lower-case digits otherwise. Every other byte is
  written as it is.
\<close>

definition hex_char :: "nat \<Rightarrow> char" where
  "hex_char d = ''0123456789abcdef'' ! d"

definition escape_char :: "char \<Rightarrow> string" where
  "escape_char c =
     (if c = CHR 0x22 then [CHR 0x5C, CHR 0x22]
      else if c = CHR 0x5C then [CHR 0x5C, CHR 0x5C]
      else if c = CHR 0x08 then [CHR 0x5C, CHR ''b'']
      else if c = CHR 0x0C then [CHR 0x5C, CHR ''f'']
      else if c = CHR 0x0A then [CHR 0x5C, CHR ''n'']
      else if c = CHR 0x0D then [CHR 0x5C, CHR ''r'']
      else if c = CHR 0x09 then [CHR 0x5C, CHR ''t'']
      else if of_char c < (0x20::nat) then
        [CHR 0x5C, CHR ''u'', CHR ''0'', CHR ''0'',
         hex_char (of_char c div 16), hex_char (of_char c mod 16)]
      else [c])"

definition encode_string :: "string \<Rightarrow> string" where
  "encode_string s = CHR 0x22 # concat (map escape_char s) @ [CHR 0x22]"

text \<open>An \<^verbatim>\<open>int\<close> is written in decimal, a \<^verbatim>\<open>float\<close> by its literal.\<close>

function digits :: "nat \<Rightarrow> string" where
  "digits n =
     (if n < 10 then [char_of (48 + n)] else digits (n div 10) @ [char_of (48 + n mod 10)])"
  by pat_completeness auto

definition encode_int :: "int \<Rightarrow> string" where
  "encode_int i = (if i < 0 then CHR ''-'' # digits (nat (- i)) else digits (nat i))"

text \<open>
  The layout is the whitespace the encoder puts after an opening bracket, after a comma,
  before a closing bracket (each depending on the nesting depth) and after a colon.
  With \<^verbatim>\<open>indent=n\<close> every item starts on a line of its own, indented by \<open>n\<close>
  spaces per level, and a colon is followed by one space. An empty list is \<^verbatim>\<open>[]\<close> and
  an empty dict \<^verbatim>\<open>{}\<close> in every layout.
\<close>

record layout =
  after_open :: "nat \<Rightarrow> string"
  after_comma :: "nat \<Rightarrow> string"
  before_close :: "nat \<Rightarrow> string"
  after_colon :: string

definition indented :: "nat \<Rightarrow> layout" where
  "indented n =
     \<lparr>after_open = (\<lambda>k. CHR 0x0A # replicate (n * k) CHR '' ''),
      after_comma = (\<lambda>k. CHR 0x0A # replicate (n * k) CHR '' ''),
      before_close = (\<lambda>k. CHR 0x0A # replicate (n * k) CHR '' ''),
      after_colon = '' ''\<rparr>"

definition compact :: layout where
  "compact =
     \<lparr>after_open = (\<lambda>k. []), after_comma = (\<lambda>k. []), before_close = (\<lambda>k. []),
      after_colon = []\<rparr>"

fun separated :: "string \<Rightarrow> string list \<Rightarrow> string" where
  "separated sep [] = []"
| "separated sep [x] = x"
| "separated sep (x # y # ys) = x @ sep @ separated sep (y # ys)"

primrec json_dumps :: "layout \<Rightarrow> json \<Rightarrow> nat \<Rightarrow> string" where
  "json_dumps l JNull k = ''null''"
| "json_dumps l (JBool b) k = (if b then ''true'' else ''false'')"
| "json_dumps l (JInt i) k = encode_int i"
| "json_dumps l (JFloat f) k = f"
| "json_dumps l (JStr s) k = encode_string s"
| "json_dumps l (JList xs) k =
     (if xs = [] then ''[]''
      else ''['' @ after_open l (Suc k)
           @ separated (CHR '','' # after_comma l (Suc k))
               (map (\<lambda>x. json_dumps l x (Suc k)) xs)
           @ before_close l k @ '']'')"
| "json_dumps l (JDict kvs) k =
     (if kvs = [] then ''{}''
      else ''{'' @ after_open l (Suc k)
           @ separated (CHR '','' # after_comma l (Suc k))
               (map (\<lambda>(key, v). encode_string key @ CHR '':'' # after_colon l @ v)
                    (map (map_prod id (\<lambda>x. json_dumps l x (Suc k))) kvs))
           @ before_close l k @ ''}'')"

text \<open>
  \<^verbatim>\<open>json_output = json.dumps(shopify_json_data, indent=4, ensure_ascii=False)\<close>
\<close>

definition json_output :: "SalesAngle \<Rightarrow> string \<Rightarrow> string" where
  "json_output angle product_name =
     json_dumps (indented 4) (shopify_json_data angle product_name) 0"

text \<open>
  Modelled from the spec: the application never serialises a \<^verbatim>\<open>StrategyOutput\<close>, so the
  serialisation that the round trip of the specification starts from is not in
  \<^verbatim>\<open>src/app.py\<close>. It is taken to be pydantic's own: \<^verbatim>\<open>model_dump\<close> gives the object
  with the declared fields in the order of declaration, and \<^verbatim>\<open>model_dump_json\<close> writes
  that object without any whitespace.
\<close>

definition SalesAngle_model_dump :: "SalesAngle \<Rightarrow> json" where
  "SalesAngle_model_dump angle =
     JDict [(''avatar_name'', JStr (avatar_name angle)),
            (''pain_point_addressed'', JStr (pain_point_addressed angle)),
            (''persuasive_copy'', JStr (persuasive_copy angle))]"

definition StrategyOutput_model_dump :: "StrategyOutput \<Rightarrow> json" where
  "StrategyOutput_model_dump so =
     JDict [(''main_pain_points'', JList (map JStr (main_pain_points so))),
            (''sales_angles'', JList (map SalesAngle_model_dump (sales_angles so)))]"

definition StrategyOutput_model_dump_json :: "StrategyOutput \<Rightarrow> string" where
  "StrategyOutput_model_dump_json so = json_dumps compact (StrategyOutput_model_dump so) 0"

text \<open>
  The values the encoder is shown to round-trip: no number occurs in them and the keys of
  every dict are distinct, as they are in a Python dict.
\<close>

fun number_free :: "json \<Rightarrow> bool" where
  "number_free JNull = True"
| "number_free (JBool b) = True"
| "number_free (JInt i) = False"
| "number_free (JFloat f) = False"
| "number_free (JStr s) = True"
| "number_free (JList xs) = list_all number_free xs"
| "number_free (JDict kvs) = (distinct (map fst kvs) \<and> list_all number_free (map snd kvs))"

definition layout_ok :: "layout \<Rightarrow> bool" where
  "layout_ok l \<longleftrightarrow>
     (\<forall>k. list_all is_ws (after_open l k) \<and> list_all is_ws (after_comma l k)
          \<and> list_all is_ws (before_close l k))
     \<and> list_all is_ws (after_colon l)"

section \<open>What the specification calls JSON\<close>

text \<open>
  The specification speaks of a response that is, or is not, parseable as JSON. JSON proper
  (RFC 8259) has no literal for a number that is not finite; the decoder's grammar is that
  of JSON together with \<^verbatim>\<open>NaN\<close>, \<^verbatim>\<open>Infinity\<close> and \<^verbatim>\<open>-Infinity\<close>. A float keeps the
  literal it was read from, and no number of JSON is written as one of the three, so a text
  is JSON exactly when the decoder accepts it and none of the three occurs as a float in
  the value.
\<close>

fun finite_numbers :: "json \<Rightarrow> bool" where
  "finite_numbers JNull = True"
| "finite_numbers (JBool b) = True"
| "finite_numbers (JInt i) = True"
| "finite_numbers (JFloat f) = (f \<notin> {''NaN'', ''Infinity'', ''-Infinity''})"
| "finite_numbers (JStr s) = True"
| "finite_numbers (JList xs) = list_all finite_numbers xs"
| "finite_numbers (JDict kvs) = list_all finite_numbers (map snd kvs)"

definition parseable_as_json :: "string \<Rightarrow> bool" where
  "parseable_as_json s =
     (case json_loads s of Inl e \<Rightarrow> False | Inr v \<Rightarrow> finite_numbers v)"

section \<open>Stand-ins for the completion client, and the scenarios of the specification\<close>

text \<open>
  Two clients for evaluating the handler on a concrete response: one that answers every
  request with the given choices, one that raises the given exception.
\<close>

definition responding :: "string option list \<Rightarrow> completion_client" where
  "responding choices request = Inr choices"

definition raising :: "exn \<Rightarrow> completion_client" where
  "raising e request = Inl e"

text \<open>Scenario A: the response text, the object it decodes to and the validated output.\<close>

definition scenario_A_text :: string where
  \<open>scenario_A_text =
     ''{"main_pain_points": ["noise", "leaks", "price"], "sales_angles": [{"avatar_name": "The Skeptic", "pain_point_addressed": "noise", "persuasive_copy": "..."}]}''\<close>

definition the_skeptic :: SalesAngle where
  "the_skeptic =
     \<lparr>avatar_name = ''The Skeptic'', pain_point_addressed = ''noise'', persuasive_copy = ''...''\<rparr>"

definition scenario_A_json :: json where
  "scenario_A_json =
     JDict [(''main_pain_points'', JList [JStr ''noise'', JStr ''leaks'', JStr ''price'']),
            (''sales_angles'', JList
               [JDict [(''avatar_name'', JStr ''The Skeptic''),
                       (''pain_point_addressed'', JStr ''noise''),
                       (''persuasive_copy'', JStr ''...'')]])]"

definition scenario_A_output :: StrategyOutput where
  "scenario_A_output =
     \<lparr>main_pain_points = [''noise'', ''leaks'', ''price''], sales_angles = [the_skeptic]\<rparr>"

definition scenario_A_state :: session_state where
  "scenario_A_state =
     \<lparr>strategy = Some scenario_A_output, angles = Some [(''The Skeptic'', the_skeptic)]\<rparr>"

definition empty_state :: session_state where
  "empty_state = \<lparr>strategy = None, angles = None\<rparr>"

text \<open>Further response texts: an angle without its copy, and two angles with one name.\<close>

definition incomplete_angle_text :: string where
  \<open>incomplete_angle_text =
     ''{"sales_angles": [{"avatar_name": "The Skeptic", "pain_point_addressed": "noise"}]}''\<close>

definition two_skeptics_text :: string where
  \<open>two_skeptics_text =
     ''{"main_pain_points": [], "sales_angles": [{"avatar_name": "The Skeptic", "pain_point_addressed": "noise", "persuasive_copy": "first"}, {"avatar_name": "The Skeptic", "pain_point_addressed": "leaks", "persuasive_copy": "second"}]}''\<close>

definition first_skeptic :: SalesAngle where
  "first_skeptic =
     \<lparr>avatar_name = ''The Skeptic'', pain_point_addressed = ''noise'', persuasive_copy = ''first''\<rparr>"

definition second_skeptic :: SalesAngle where
  "second_skeptic =
     \<lparr>avatar_name = ''The Skeptic'', pain_point_addressed = ''leaks'', persuasive_copy = ''second''\<rparr>"

section \<open>The decoder terminates\<close>

text \<open>Each scanner returns a rest that is shorter than its input.\<close>

lemma scanstring_length: "scanstring s = Some (u, r) \<Longrightarrow> length r < length s"
  by (induction s arbitrary: u r rule: scanstring.induct)
     (fastforce split: if_splits list.splits option.splits)+

lemma strip_prefix_length: "strip_prefix p s = Some r \<Longrightarrow> length r = length s - length p"
  by (auto simp: strip_prefix_def split: if_splits)

lemma literal_length: "p \<noteq> [] \<Longrightarrow> literal p v s = Some (w, r) \<Longrightarrow> length r < length s"
proof -
  assume p: "p \<noteq> []" and a: "literal p v s = Some (w, r)"
  then have t: "take (length p) s = p" and r: "r = drop (length p) s"
    by (auto simp: literal_def strip_prefix_def split: if_splits)
  have "length (take (length p) s) \<le> length s" by simp
  with t have "length p \<le> length s" by simp
  with p r show ?thesis by (cases p) auto
qed

lemma match_sign_length: "length (snd (match_sign s)) \<le> length s"
  by (simp add: match_sign_def split: list.splits)

lemma match_integer_length: "match_integer s = Some (t, r) \<Longrightarrow> length r < length s"
  by (auto simp: match_integer_def less_Suc_eq_le length_dropWhile_le split: list.splits if_splits)

lemma match_frac_length: "length (snd (match_frac s)) \<le> length s"
  by (auto simp: match_frac_def le_SucI length_dropWhile_le split: list.splits)

lemma match_exp_sign_length: "length (snd (match_exp_sign s)) \<le> length s"
  by (simp add: match_exp_sign_def split: list.splits)

lemma match_exp_length: "length (snd (match_exp s)) \<le> length s"
proof (cases s)
  case Nil
  then show ?thesis by (simp add: match_exp_def)
next
  case (Cons e r)
  show ?thesis
  proof (cases "snd (match_exp_sign r)")
    case Nil
    then show ?thesis using Cons by (simp add: match_exp_def)
  next
    case (Cons x t)
    have "length (dropWhile is_digit t) \<le> length t" by (rule length_dropWhile_le)
    moreover have "Suc (length t) \<le> length r"
      using match_exp_sign_length[of r] Cons by simp
    ultimately show ?thesis using Cons \<open>s = e # r\<close> by (simp add: match_exp_def)
  qed
qed

lemma match_number_length: "match_number s = Some (v, r) \<Longrightarrow> length r < length s"
proof -
  assume a: "match_number s = Some (v, r)"
  then obtain ip s2 where i: "match_integer (snd (match_sign s)) = Some (ip, s2)"
    by (auto simp: match_number_def split: option.splits)
  from a i have r: "r = snd (match_exp (snd (match_frac s2)))"
    by (auto simp: match_number_def Let_def split: if_splits)
  have "length r \<le> length s2"
    unfolding r using match_exp_length[of "snd (match_frac s2)"] match_frac_length[of s2] by simp
  moreover have "length s2 < length s"
    using match_integer_length[OF i] match_sign_length[of s] by simp
  ultimately show ?thesis by simp
qed

lemma scan_scalar_length: "scan_scalar s = Some (v, r) \<Longrightarrow> length r < length s"
  unfolding scan_scalar_def orelse_def
  by (auto split: option.splits dest: match_number_length literal_length[rotated])

lemma length_skip_ws: "length (skip_ws s) \<le> length s"
  by (simp add: skip_ws_def length_dropWhile_le)

lemma skip_ws_Cons_length: "skip_ws s = c # r \<Longrightarrow> length r < length s"
  using length_skip_ws[of s] by simp

lemma scan_key_length: "scan_key s = Some (k, r) \<Longrightarrow> length r < length s"
proof -
  assume a: "scan_key s = Some (k, r)"
  then obtain q r1 where s: "s = q # r1" by (cases s) (auto simp: scan_key_def)
  from a s obtain u r2 where sc: "scanstring r1 = Some (u, r2)"
    by (auto simp: scan_key_def split: if_splits option.splits)
  from a s sc obtain c r3 where w: "skip_ws r2 = c # r3" and r: "r = skip_ws r3"
    by (auto simp: scan_key_def split: if_splits list.splits)
  have "length r \<le> length r3" unfolding r by (rule length_skip_ws)
  moreover have "length r3 < length r2" using length_skip_ws[of r2] w by simp
  moreover have "length r2 < length r1" by (rule scanstring_length[OF sc])
  ultimately show ?thesis using s by simp
qed

termination decode_value
proof (relation "measure (\<lambda>x. case x of Inl (st, s) \<Rightarrow> length s | Inr (st, v, s) \<Rightarrow> length s)")
  show "wf (measure (\<lambda>x. case x of Inl (st, s) \<Rightarrow> length s | Inr (st, v, s) \<Rightarrow> length s))"
    by simp
qed (auto simp: less_Suc_eq_le
          dest!: scanstring_length scan_key_length scan_scalar_length skip_ws_Cons_length
          intro: order_trans[OF length_skip_ws] le_less_trans[OF length_skip_ws]
                 less_trans[OF _ le_less_trans[OF length_skip_ws]])

termination digits
  by (relation "measure id") auto

section \<open>When validation succeeds\<close>

lemma at_loc_simps [simp]:
  "at_loc p (Inr x) = Inr x"
  "at_loc p (Inl es) = Inl (map (\<lambda>e. LineError (p # loc e) (etype e) (input e)) es)"
  by (simp_all add: at_loc_def)

lemma errors_of_simps [simp]: "errors_of (Inl es) = es" "errors_of (Inr x) = []"
  by (simp_all add: errors_of_def)

lemma at_loc_Inr_iff: "at_loc p r = Inr x \<longleftrightarrow> r = Inr x"
  by (cases r) simp_all

lemma validate_str_Inr_iff: "validate_str v = Inr s \<longleftrightarrow> v = JStr s"
  by (simp add: validate_str_def split: json.splits)

lemma validate_items_Inr_iff:
  "validate_items f i xs = Inr ys \<longleftrightarrow> list_all2 (\<lambda>x y. f x = Inr y) xs ys"
proof (induction xs arbitrary: i ys)
  case Nil
  show ?case by auto
next
  case (Cons x xs)
  have IH: "list_all2 (\<lambda>x y. f x = Inr y) xs zs \<longleftrightarrow> validate_items f (Suc i) xs = Inr zs" for zs
    by (simp add: Cons.IH)
  show ?case
  proof (cases "f x")
    case (Inl es)
    then show ?thesis by (simp add: list_all2_Cons1)
  next
    case (Inr y)
    then show ?thesis
      unfolding list_all2_Cons1 IH
      by (cases "validate_items f (Suc i) xs") auto
  qed
qed

lemma validate_field_Inr_iff:
  "validate_field d name f = Inr x \<longleftrightarrow> (\<exists>v. map_of d name = Some v \<and> f v = Inr x)"
  by (simp add: validate_field_def at_loc_Inr_iff split: option.splits)

lemma validate_list_Inr_iff:
  "validate_list f v = Inr ys \<longleftrightarrow> (\<exists>xs. v = JList xs \<and> list_all2 (\<lambda>x y. f x = Inr y) xs ys)"
  by (cases v) (simp_all add: validate_list_def validate_items_Inr_iff)

lemma triple_Inr_iff:
  "(case (r1, r2, r3) of (Inr a, Inr p, Inr c) \<Rightarrow> Inr (g a p c) | _ \<Rightarrow> Inl es) = Inr z
     \<longleftrightarrow> (\<exists>a p c. r1 = Inr a \<and> r2 = Inr p \<and> r3 = Inr c \<and> z = g a p c)"
  by (cases r1; cases r2; cases r3) auto

lemma pair_Inr_iff:
  "(case (r1, r2) of (Inr a, Inr p) \<Rightarrow> Inr (g a p) | _ \<Rightarrow> Inl es) = Inr z
     \<longleftrightarrow> (\<exists>a p. r1 = Inr a \<and> r2 = Inr p \<and> z = g a p)"
  by (cases r1; cases r2) auto

lemma SalesAngle_model_validate_Inr_iff:
  "SalesAngle_model_validate v = Inr a \<longleftrightarrow>
     (\<exists>d. v = JDict d
        \<and> map_of d ''avatar_name'' = Some (JStr (avatar_name a))
        \<and> map_of d ''pain_point_addressed'' = Some (JStr (pain_point_addressed a))
        \<and> map_of d ''persuasive_copy'' = Some (JStr (persuasive_copy a)))"
proof (cases v)
  case (JDict d)
  show ?thesis
    unfolding JDict SalesAngle_model_validate_def Let_def json.case triple_Inr_iff
              validate_field_Inr_iff validate_str_Inr_iff
    by (cases a) auto
qed (simp_all add: SalesAngle_model_validate_def)

lemma StrategyOutput_model_validate_Inr_iff:
  "StrategyOutput_model_validate v = Inr so \<longleftrightarrow>
     (\<exists>d ps as. v = JDict d
        \<and> map_of d ''main_pain_points'' = Some (JList ps)
        \<and> list_all2 (\<lambda>x y. x = JStr y) ps (main_pain_points so)
        \<and> map_of d ''sales_angles'' = Some (JList as)
        \<and> list_all2 (\<lambda>x y. SalesAngle_model_validate x = Inr y) as (sales_angles so))"
proof (cases v)
  case (JDict d)
  show ?thesis
    unfolding JDict StrategyOutput_model_validate_def Let_def json.case pair_Inr_iff
              validate_field_Inr_iff validate_list_Inr_iff validate_str_Inr_iff
    by (cases so) auto
qed (simp_all add: StrategyOutput_model_validate_def)

lemmas model_validate_defs =
  StrategyOutput_model_validate_def SalesAngle_model_validate_def validate_field_def
  validate_list_def validate_str_def Let_def

lemma scenario_A_validates: "StrategyOutput_model_validate scenario_A_json = Inr scenario_A_output"
  by (simp add: scenario_A_json_def scenario_A_output_def the_skeptic_def model_validate_defs)

section \<open>Claims about the validated fields\<close>

text \<open>
  C1 (as amended). Validation succeeds only on an object whose \<^verbatim>\<open>sales_angles\<close> is a
  list of objects in each of which \<^verbatim>\<open>avatar_name\<close>, \<^verbatim>\<open>pain_point_addressed\<close> and
  \<^verbatim>\<open>persuasive_copy\<close> are present and are strings; the validated angle holds exactly
  the strings supplied, so an absent or wrong-typed field fails validation and is never
  filled with a default. Nothing is required of the length of a string.
\<close>

theorem validated_angle_fields_are_supplied_strings:
  assumes "StrategyOutput_model_validate v = Inr so"
  shows "\<exists>d items. v = JDict d
           \<and> map_of d ''sales_angles'' = Some (JList items)
           \<and> length items = length (sales_angles so)
           \<and> (\<forall>i < length items. \<exists>e. items ! i = JDict e
                 \<and> map_of e ''avatar_name'' = Some (JStr (avatar_name (sales_angles so ! i)))
                 \<and> map_of e ''pain_point_addressed''
                     = Some (JStr (pain_point_addressed (sales_angles so ! i)))
                 \<and> map_of e ''persuasive_copy''
                     = Some (JStr (persuasive_copy (sales_angles so ! i))))"
proof -
  from assms obtain d ps items where v: "v = JDict d"
    and items: "map_of d ''sales_angles'' = Some (JList items)"
    and all: "list_all2 (\<lambda>x y. SalesAngle_model_validate x = Inr y) items (sales_angles so)"
    unfolding StrategyOutput_model_validate_Inr_iff by blast
  from all have len: "length items = length (sales_angles so)"
    by (rule list_all2_lengthD)
  have "\<exists>e. items ! i = JDict e
          \<and> map_of e ''avatar_name'' = Some (JStr (avatar_name (sales_angles so ! i)))
          \<and> map_of e ''pain_point_addressed''
              = Some (JStr (pain_point_addressed (sales_angles so ! i)))
          \<and> map_of e ''persuasive_copy'' = Some (JStr (persuasive_copy (sales_angles so ! i)))"
    if "i < length items" for i
  proof -
    from all that have "SalesAngle_model_validate (items ! i) = Inr (sales_angles so ! i)"
      by (rule list_all2_nthD)
    then show ?thesis unfolding SalesAngle_model_validate_Inr_iff .
  qed
  with v items len show ?thesis by blast
qed

theorem validated_angle_fields_are_supplied_strings_witness:
  "StrategyOutput_model_validate scenario_A_json = Inr scenario_A_output
   \<and> (\<exists>d items. scenario_A_json = JDict d
         \<and> map_of d ''sales_angles'' = Some (JList items)
         \<and> length items = length (sales_angles scenario_A_output)
         \<and> (\<forall>i < length items. \<exists>e. items ! i = JDict e
               \<and> map_of e ''avatar_name''
                   = Some (JStr (avatar_name (sales_angles scenario_A_output ! i)))
               \<and> map_of e ''pain_point_addressed''
                   = Some (JStr (pain_point_addressed (sales_angles scenario_A_output ! i)))
               \<and> map_of e ''persuasive_copy''
                   = Some (JStr (persuasive_copy (sales_angles scenario_A_output ! i)))))"
  using validated_angle_fields_are_supplied_strings [OF scenario_A_validates]
    scenario_A_validates by simp

text \<open>
  C1 as stated fails: an angle whose \<^verbatim>\<open>avatar_name\<close> is the empty string validates, and
  the empty string is what the validated angle holds.
\<close>

theorem empty_avatar_name_is_accepted:
  "StrategyOutput_model_validate
     (JDict [(''main_pain_points'', JList [JStr ''noise'']),
             (''sales_angles'', JList
                [JDict [(''avatar_name'', JStr []),
                        (''pain_point_addressed'', JStr ''noise''),
                        (''persuasive_copy'', JStr ''...'')]])])
   = Inr \<lparr>main_pain_points = [''noise''],
          sales_angles = [\<lparr>avatar_name = [], pain_point_addressed = ''noise'',
                           persuasive_copy = ''...''\<rparr>]\<rparr>"
  by (simp add: model_validate_defs)

text \<open>
  C10. An object whose \<^verbatim>\<open>main_pain_points\<close> is a list of strings and whose
  \<^verbatim>\<open>sales_angles\<close> is a list of objects with the three string fields validates, whatever
  other keys the object or its entries carry; the output is made of the declared fields
  alone.
\<close>

theorem extra_fields_are_ignored:
  assumes "map_of d ''main_pain_points'' = Some (JList (map JStr pps))"
    and "map_of d ''sales_angles'' = Some (JList items)"
    and "list_all2 (\<lambda>x a. \<exists>e. x = JDict e
            \<and> map_of e ''avatar_name'' = Some (JStr (avatar_name a))
            \<and> map_of e ''pain_point_addressed'' = Some (JStr (pain_point_addressed a))
            \<and> map_of e ''persuasive_copy'' = Some (JStr (persuasive_copy a))) items as"
  shows "StrategyOutput_model_validate (JDict d)
         = Inr \<lparr>main_pain_points = pps, sales_angles = as\<rparr>"
proof -
  have "list_all2 (\<lambda>x y. x = JStr y) (map JStr pps) pps"
    by (simp add: list_all2_map1 list_all2_same)
  moreover have "list_all2 (\<lambda>x y. SalesAngle_model_validate x = Inr y) items as"
    using assms(3) by (rule list_all2_mono) (simp add: SalesAngle_model_validate_Inr_iff)
  ultimately show ?thesis
    unfolding StrategyOutput_model_validate_Inr_iff using assms(1,2) by simp
qed

theorem extra_fields_are_ignored_witness:
  "StrategyOutput_model_validate
     (JDict [(''model'', JStr ''gpt-4o''),
             (''main_pain_points'', JList [JStr ''noise'']),
             (''sales_angles'', JList
                [JDict [(''avatar_name'', JStr ''The Skeptic''),
                        (''confidence'', JInt 9),
                        (''pain_point_addressed'', JStr ''noise''),
                        (''persuasive_copy'', JStr ''...'')]]),
             (''notes'', JNull)])
   = Inr \<lparr>main_pain_points = [''noise''], sales_angles = [the_skeptic]\<rparr>"
proof -
  let ?e = "[(''avatar_name'', JStr ''The Skeptic''), (''confidence'', JInt 9),
             (''pain_point_addressed'', JStr ''noise''), (''persuasive_copy'', JStr ''...'')]"
  let ?d = "[(''model'', JStr ''gpt-4o''), (''main_pain_points'', JList [JStr ''noise'']),
             (''sales_angles'', JList [JDict ?e]), (''notes'', JNull)]"
  have 1: "map_of ?d ''main_pain_points'' = Some (JList (map JStr [''noise'']))"
    by simp
  have 2: "map_of ?d ''sales_angles'' = Some (JList [JDict ?e])"
    by simp
  have "map_of ?e ''avatar_name'' = Some (JStr (avatar_name the_skeptic))"
    and "map_of ?e ''pain_point_addressed'' = Some (JStr (pain_point_addressed the_skeptic))"
    and "map_of ?e ''persuasive_copy'' = Some (JStr (persuasive_copy the_skeptic))"
    by (simp_all add: the_skeptic_def)
  then have 3: "list_all2 (\<lambda>x a. \<exists>e. x = JDict e
            \<and> map_of e ''avatar_name'' = Some (JStr (avatar_name a))
            \<and> map_of e ''pain_point_addressed'' = Some (JStr (pain_point_addressed a))
            \<and> map_of e ''persuasive_copy'' = Some (JStr (persuasive_copy a)))
          [JDict ?e] [the_skeptic]"
    by simp
  show ?thesis by (rule extra_fields_are_ignored [OF 1 2 3])
qed

section \<open>When validation fails\<close>

lemma pair_Inl:
  "isl r1 \<or> isl r2 \<Longrightarrow>
   (case (r1, r2) of (Inr a, Inr p) \<Rightarrow> Inr (g a p) | _ \<Rightarrow> Inl es) = Inl es"
  by (cases r1; cases r2) auto

lemma triple_Inl:
  "isl r1 \<or> isl r2 \<or> isl r3 \<Longrightarrow>
   (case (r1, r2, r3) of (Inr a, Inr p, Inr c) \<Rightarrow> Inr (g a p c) | _ \<Rightarrow> Inl es) = Inl es"
  by (cases r1; cases r2; cases r3) auto

lemma validate_field_missing:
  "map_of d name = None \<Longrightarrow> validate_field d name f = Inl [LineError [Key name] missing (JDict d)]"
  by (simp add: validate_field_def)

lemma validate_field_present:
  "map_of d name = Some v \<Longrightarrow> validate_field d name f = at_loc (Key name) (f v)"
  by (simp add: validate_field_def)

lemma isl_at_loc [simp]: "isl (at_loc p r) = isl r"
  by (cases r) simp_all

lemma errors_of_at_loc:
  "errors_of (at_loc p r) = map (\<lambda>e. LineError (p # loc e) (etype e) (input e)) (errors_of r)"
  by (cases r) simp_all

lemma validate_items_Cons_Inl:
  "isl (f x) \<or> isl (validate_items f (Suc k) xs) \<Longrightarrow>
   validate_items f k (x # xs)
     = Inl (errors_of (at_loc (Idx k) (f x)) @ errors_of (validate_items f (Suc k) xs))"
  by (cases "f x"; cases "validate_items f (Suc k) xs") auto

lemma validate_items_item_error:
  assumes "i < length xs" and "f (xs ! i) = Inl es0" and "e \<in> set es0"
  shows "isl (validate_items f k xs)
         \<and> LineError (Idx (k + i) # loc e) (etype e) (input e)
             \<in> set (errors_of (validate_items f k xs))"
  using assms
proof (induction xs arbitrary: i k)
  case Nil
  then show ?case by simp
next
  case (Cons x xs)
  show ?case
  proof (cases i)
    case 0
    with Cons.prems have fx: "f x = Inl es0" by simp
    then have "validate_items f k (x # xs)
       = Inl (errors_of (at_loc (Idx k) (f x)) @ errors_of (validate_items f (Suc k) xs))"
      by (intro validate_items_Cons_Inl) simp
    with fx 0 Cons.prems(3) show ?thesis by (auto simp: image_iff)
  next
    case (Suc j)
    with Cons.prems have "j < length xs" "f (xs ! j) = Inl es0" by simp_all
    from Cons.IH [OF this Cons.prems(3), of "Suc k"]
    have isl: "isl (validate_items f (Suc k) xs)"
      and mem: "LineError (Idx (Suc k + j) # loc e) (etype e) (input e)
                 \<in> set (errors_of (validate_items f (Suc k) xs))"
      by simp_all
    from isl have "validate_items f k (x # xs)
       = Inl (errors_of (at_loc (Idx k) (f x)) @ errors_of (validate_items f (Suc k) xs))"
      by (intro validate_items_Cons_Inl) simp
    with mem Suc show ?thesis by simp
  qed
qed

lemma SalesAngle_missing_field:
  assumes "name \<in> {''avatar_name'', ''pain_point_addressed'', ''persuasive_copy''}"
    and "map_of e name = None"
  shows "\<exists>es. SalesAngle_model_validate (JDict e) = Inl es
            \<and> LineError [Key name] missing (JDict e) \<in> set es"
proof -
  let ?r1 = "validate_field e ''avatar_name'' validate_str"
  let ?r2 = "validate_field e ''pain_point_addressed'' validate_str"
  let ?r3 = "validate_field e ''persuasive_copy'' validate_str"
  from assms have "LineError [Key name] missing (JDict e)
      \<in> set (errors_of ?r1 @ errors_of ?r2 @ errors_of ?r3)"
    by (auto simp: validate_field_missing)
  moreover from assms have "isl ?r1 \<or> isl ?r2 \<or> isl ?r3"
    by (auto simp: validate_field_missing)
  then have "SalesAngle_model_validate (JDict e)
      = Inl (errors_of ?r1 @ errors_of ?r2 @ errors_of ?r3)"
    unfolding SalesAngle_model_validate_def Let_def json.case by (rule triple_Inl)
  ultimately show ?thesis by blast
qed

lemma StrategyOutput_Inl:
  assumes "isl (validate_field d ''main_pain_points'' (validate_list validate_str))
         \<or> isl (validate_field d ''sales_angles'' (validate_list SalesAngle_model_validate))"
  shows "StrategyOutput_model_validate (JDict d)
         = Inl (errors_of (validate_field d ''main_pain_points'' (validate_list validate_str))
              @ errors_of (validate_field d ''sales_angles''
                             (validate_list SalesAngle_model_validate)))"
  unfolding StrategyOutput_model_validate_def Let_def json.case using assms by (rule pair_Inl)

lemma missing_top_field:
  assumes "map_of d ''main_pain_points'' = None \<or> map_of d ''sales_angles'' = None"
  shows "\<exists>es. StrategyOutput_model_validate (JDict d) = Inl es
     \<and> (map_of d ''main_pain_points'' = None
           \<longrightarrow> LineError [Key ''main_pain_points''] missing (JDict d) \<in> set es)
     \<and> (map_of d ''sales_angles'' = None
           \<longrightarrow> LineError [Key ''sales_angles''] missing (JDict d) \<in> set es)"
proof -
  from assms have "isl (validate_field d ''main_pain_points'' (validate_list validate_str))
         \<or> isl (validate_field d ''sales_angles'' (validate_list SalesAngle_model_validate))"
    by (auto simp: validate_field_missing)
  from StrategyOutput_Inl [OF this] show ?thesis
    by (auto simp: validate_field_missing)
qed

lemma missing_angle_field:
  assumes items: "map_of d ''sales_angles'' = Some (JList items)"
    and i: "i < length items" and e: "items ! i = JDict e"
    and name: "name \<in> {''avatar_name'', ''pain_point_addressed'', ''persuasive_copy''}"
    and none: "map_of e name = None"
  shows "\<exists>es. StrategyOutput_model_validate (JDict d) = Inl es
     \<and> LineError [Key ''sales_angles'', Idx i, Key name] missing (JDict e) \<in> set es"
proof -
  from SalesAngle_missing_field [OF name none] obtain es0
    where es0: "SalesAngle_model_validate (items ! i) = Inl es0"
      and mem0: "LineError [Key name] missing (JDict e) \<in> set es0"
    unfolding e by blast
  let ?r = "validate_items SalesAngle_model_validate 0 items"
  from validate_items_item_error [of i items SalesAngle_model_validate es0 _ 0, OF i es0 mem0]
  have isl: "isl ?r" and mem: "LineError [Idx i, Key name] missing (JDict e) \<in> set (errors_of ?r)"
    by simp_all
  have r2: "validate_field d ''sales_angles'' (validate_list SalesAngle_model_validate)
      = at_loc (Key ''sales_angles'') ?r"
    by (simp add: validate_field_present [OF items] validate_list_def)
  have "isl (validate_field d ''main_pain_points'' (validate_list validate_str))
         \<or> isl (validate_field d ''sales_angles'' (validate_list SalesAngle_model_validate))"
    using isl by (simp add: r2)
  from StrategyOutput_Inl [OF this]
  have "StrategyOutput_model_validate (JDict d)
         = Inl (errors_of (validate_field d ''main_pain_points'' (validate_list validate_str))
              @ errors_of (at_loc (Key ''sales_angles'') ?r))"
    by (simp add: r2)
  moreover have "LineError [Key ''sales_angles'', Idx i, Key name] missing (JDict e)
      \<in> set (errors_of (at_loc (Key ''sales_angles'') ?r))"
    using mem by (force simp: errors_of_at_loc image_iff)
  ultimately show ?thesis by auto
qed

section \<open>The handler, case by case\<close>

lemma on_exception_not_Success: "on_exception e \<noteq> Success"
  by (cases e) (simp_all add: on_exception_def)

lemma Success_iff:
  "message (generate_strategy loads create sch st pn cr) = Success \<longleftrightarrow>
     pn \<noteq> [] \<and> cr \<noteq> [] \<and> (\<exists>so. request_strategy loads create sch pn cr = Inr so)"
  by (cases "request_strategy loads create sch pn cr")
     (auto simp: generate_strategy_def on_exception_not_Success)

lemma request_strategy_Inr:
  assumes "request_strategy loads create sch pn cr = Inr so"
  shows "\<exists>text others response_json.
           create (completion_request (prompt pn cr sch)) = Inr (Some text # others)
         \<and> loads text = Inr response_json
         \<and> StrategyOutput_model_validate response_json = Inr so"
  using assms
  by (auto simp: request_strategy_def first_choice_content_def parse_and_validate_def
           split: sum.splits list.splits option.splits)

lemma request_strategy_responding:
  "request_strategy loads (responding (c # cs)) sch pn cr = parse_and_validate loads c"
  by (simp add: request_strategy_def responding_def first_choice_content_def)

section \<open>Decoding the scenario texts\<close>

lemmas json_loads_eval =
  json_loads_def skip_ws_def is_ws_def scan_key_def scan_scalar_def orelse_def literal_def
  strip_prefix_def match_number_def match_sign_def match_integer_def match_frac_def
  match_exp_def match_exp_sign_def is_digit_def int_of_digits_def

lemma not_json_undecodable: "json_loads ''not json'' = Inl JSONDecodeError"
  by (simp add: json_loads_def skip_ws_def is_ws_def scan_scalar_def orelse_def literal_def
       strip_prefix_def match_number_def match_sign_def match_integer_def is_digit_def)

lemma scenario_A_decodes: "json_loads scenario_A_text = Inr scenario_A_json"
  by (simp add: scenario_A_text_def scenario_A_json_def json_loads_eval)

lemma empty_lists_decode:
  \<open>json_loads ''{"main_pain_points": [], "sales_angles": []}''
     = Inr (JDict [(''main_pain_points'', JList []), (''sales_angles'', JList [])])\<close>
  by (simp add: json_loads_eval)

lemma scenario_A_succeeds:
  "generate_strategy json_loads (responding [Some scenario_A_text]) [] empty_state
     ''Silent Blender'' ''too loud''
   = \<lparr>state = scenario_A_state, message = Success, stopped = False\<rparr>"
  by (simp add: generate_strategy_def request_strategy_responding parse_and_validate_def
        scenario_A_decodes scenario_A_validates scenario_A_state_def scenario_A_output_def
        angles_by_name_def empty_state_def the_skeptic_def)

section \<open>Claims about the generation attempt\<close>

text \<open>
  C2 (as amended). When the handler reports success, the stored output holds one validated
  angle for each entry of the response's \<^verbatim>\<open>sales_angles\<close> list, in the order of the
  list; nothing is required of the length of the list.
\<close>

theorem success_stores_one_angle_per_entry:
  assumes "message (generate_strategy loads create sch st pn cr) = Success"
  shows "\<exists>text others d items so.
           create (completion_request (prompt pn cr sch)) = Inr (Some text # others)
         \<and> loads text = Inr (JDict d)
         \<and> map_of d ''sales_angles'' = Some (JList items)
         \<and> strategy (state (generate_strategy loads create sch st pn cr)) = Some so
         \<and> length (sales_angles so) = length items
         \<and> list_all2 (\<lambda>x y. SalesAngle_model_validate x = Inr y) items (sales_angles so)"
proof -
  from assms obtain so where ne: "pn \<noteq> []" "cr \<noteq> []"
    and rs: "request_strategy loads create sch pn cr = Inr so"
    unfolding Success_iff by blast
  from request_strategy_Inr [OF rs] obtain raw others response_json
    where c: "create (completion_request (prompt pn cr sch)) = Inr (Some raw # others)"
      and l: "loads raw = Inr response_json"
      and v: "StrategyOutput_model_validate response_json = Inr so"
    by blast
  from v obtain d items where d: "response_json = JDict d"
    and items: "map_of d ''sales_angles'' = Some (JList items)"
    and all: "list_all2 (\<lambda>x y. SalesAngle_model_validate x = Inr y) items (sales_angles so)"
    unfolding StrategyOutput_model_validate_Inr_iff by blast
  have "strategy (state (generate_strategy loads create sch st pn cr)) = Some so"
    using ne rs by (simp add: generate_strategy_def)
  moreover from all have "length (sales_angles so) = length items"
    by (simp add: list_all2_lengthD)
  ultimately show ?thesis using c l d items all by blast
qed

theorem success_stores_one_angle_per_entry_witness:
  "message (generate_strategy json_loads (responding [Some scenario_A_text]) [] empty_state
              ''Silent Blender'' ''too loud'') = Success
   \<and> (\<exists>d items so.
         json_loads scenario_A_text = Inr (JDict d)
       \<and> map_of d ''sales_angles'' = Some (JList items)
       \<and> strategy (state (generate_strategy json_loads (responding [Some scenario_A_text]) []
                             empty_state ''Silent Blender'' ''too loud'')) = Some so
       \<and> length (sales_angles so) = length items
       \<and> list_all2 (\<lambda>x y. SalesAngle_model_validate x = Inr y) items (sales_angles so))"
proof -
  have m: "message (generate_strategy json_loads (responding [Some scenario_A_text]) []
                      empty_state ''Silent Blender'' ''too loud'') = Success"
    by (simp add: scenario_A_succeeds)
  from success_stores_one_angle_per_entry [OF m] m show ?thesis
    by (auto simp: responding_def)
qed

text \<open>
  C2 as stated fails: a response whose \<^verbatim>\<open>sales_angles\<close> is the empty list is reported as
  a success, and the stored output has no angle.
\<close>

theorem empty_sales_angles_reports_success:
  \<open>generate_strategy json_loads
      (responding [Some ''{"main_pain_points": [], "sales_angles": []}'']) [] empty_state
      ''Silent Blender'' ''too loud''
    = \<lparr>state = \<lparr>strategy = Some \<lparr>main_pain_points = [], sales_angles = []\<rparr>,
                 angles = Some []\<rparr>,
       message = Success, stopped = False\<rparr>\<close>
  by (simp add: generate_strategy_def request_strategy_responding parse_and_validate_def
        empty_lists_decode model_validate_defs angles_by_name_def empty_state_def)

text \<open>
  C3. An attempt that reports anything but success (missing input, schema violation,
  malformed output, transport failure) returns the session state it was given.
\<close>

theorem failed_attempt_leaves_session_state:
  assumes "message (generate_strategy loads create sch st pn cr) \<noteq> Success"
  shows "state (generate_strategy loads create sch st pn cr) = st"
  using assms
  by (cases "request_strategy loads create sch pn cr")
     (auto simp: generate_strategy_def split: if_splits)

theorem failed_attempt_leaves_session_state_witness:
  "message (generate_strategy json_loads (responding [Some ''not json'']) [] scenario_A_state
              ''Silent Blender'' ''too loud'') = MalformedOutput
   \<and> state (generate_strategy json_loads (responding [Some ''not json'']) [] scenario_A_state
              ''Silent Blender'' ''too loud'') = scenario_A_state"
proof -
  have m: "message (generate_strategy json_loads (responding [Some ''not json'']) []
              scenario_A_state ''Silent Blender'' ''too loud'') = MalformedOutput"
    by (simp add: generate_strategy_def request_strategy_responding parse_and_validate_def
          not_json_undecodable on_exception_def)
  then have "message (generate_strategy json_loads (responding [Some ''not json'']) []
              scenario_A_state ''Silent Blender'' ''too loud'') \<noteq> Success"
    by simp
  from failed_attempt_leaves_session_state [OF this] m show ?thesis by simp
qed

text \<open>
  C4 (as amended). The handler reports \<open>MalformedOutput\<close> exactly when the decoder raises
  \<^verbatim>\<open>JSONDecodeError\<close> on the response text: then parsing and validating raises that
  exception, the clause written for it catches it, the report is neither a schema
  violation nor the generic error, and the session state is the one before the attempt.
  A text on which the decoder does anything else, be it a value or an exception of
  another class, is never reported as \<open>MalformedOutput\<close>. The handler is total, so no
  exception escapes it. This holds for any decoder and any client.
\<close>

theorem MalformedOutput_iff_JSONDecodeError:
  assumes "product_name \<noteq> []" and "competitor_reviews \<noteq> []"
    and "create (completion_request (prompt product_name competitor_reviews sch))
           = Inr (Some text # others)"
  shows "(loads text = Inl JSONDecodeError \<longrightarrow>
            parse_and_validate loads (Some text) = Inl JSONDecodeError
          \<and> generate_strategy loads create sch st product_name competitor_reviews
              = \<lparr>state = st, message = MalformedOutput, stopped = True\<rparr>)
       \<and> (message (generate_strategy loads create sch st product_name competitor_reviews)
            = MalformedOutput \<longrightarrow> loads text = Inl JSONDecodeError)"
proof (intro conjI impI)
  assume "loads text = Inl JSONDecodeError"
  then show "parse_and_validate loads (Some text) = Inl JSONDecodeError"
    by (simp add: parse_and_validate_def)
  then show "generate_strategy loads create sch st product_name competitor_reviews
              = \<lparr>state = st, message = MalformedOutput, stopped = True\<rparr>"
    using assms
    by (simp add: generate_strategy_def request_strategy_def first_choice_content_def
          on_exception_def)
next
  assume m: "message (generate_strategy loads create sch st product_name competitor_reviews)
               = MalformedOutput"
  have run: "generate_strategy loads create sch st product_name competitor_reviews
      = (case parse_and_validate loads (Some text) of
           Inr so \<Rightarrow> \<lparr>state = st\<lparr>strategy := Some so,
                                   angles := Some (angles_by_name (sales_angles so))\<rparr>,
                      message = Success, stopped = False\<rparr>
         | Inl e \<Rightarrow> \<lparr>state = st, message = on_exception e, stopped = True\<rparr>)"
    using assms
    by (simp add: generate_strategy_def request_strategy_def first_choice_content_def)
  show "loads text = Inl JSONDecodeError"
  proof (cases "loads text")
    case (Inl e)
    then have "parse_and_validate loads (Some text) = Inl e"
      by (simp add: parse_and_validate_def)
    with m run have "on_exception e = MalformedOutput" by simp
    then have "e = JSONDecodeError"
      by (cases e) (simp_all add: on_exception_def)
    with Inl show ?thesis by simp
  next
    case (Inr v)
    show ?thesis
    proof (cases "StrategyOutput_model_validate v")
      case (Inl es)
      with Inr have "parse_and_validate loads (Some text) = Inl (ValidationError es)"
        by (simp add: parse_and_validate_def)
      with m run show ?thesis by (simp add: on_exception_def)
    next
      case (Inr so)
      with \<open>loads text = Inr v\<close> have "parse_and_validate loads (Some text) = Inr so"
        by (simp add: parse_and_validate_def)
      with m run show ?thesis by simp
    qed
  qed
qed

theorem MalformedOutput_iff_JSONDecodeError_witness:
  "json_loads ''not json'' = Inl JSONDecodeError
   \<and> parse_and_validate json_loads (Some ''not json'') = Inl JSONDecodeError
   \<and> generate_strategy json_loads (responding [Some ''not json'']) [] scenario_A_state
         ''Silent Blender'' ''too loud''
       = \<lparr>state = scenario_A_state, message = MalformedOutput, stopped = True\<rparr>"
proof -
  have 1: "''Silent Blender'' \<noteq> []" and 2: "''too loud'' \<noteq> []"
    by simp_all
  have 3: "responding [Some ''not json'']
             (completion_request (prompt ''Silent Blender'' ''too loud'' []))
           = Inr [Some ''not json'']"
    by (simp add: responding_def)
  note MalformedOutput_iff_JSONDecodeError
      [where create = "responding [Some ''not json'']" and loads = json_loads
         and sch = "[]" and st = scenario_A_state and others = "[]", OF 1 2 3]
  with not_json_undecodable show ?thesis by simp
qed

text \<open>
  C4 as stated fails. The text \<^verbatim>\<open>NaN\<close> is not JSON, yet the decoder accepts it as a
  float; the value is not an object, so validation fails and the report is a schema
  violation, not \<open>MalformedOutput\<close>.
\<close>

theorem NaN_response_reports_SchemaViolation:
  "\<not> parseable_as_json ''NaN''
   \<and> generate_strategy json_loads (responding [Some ''NaN'']) [] empty_state
        ''Silent Blender'' ''too loud''
       = \<lparr>state = empty_state,
          message = SchemaViolation [LineError [] model_type (JFloat ''NaN'')],
          stopped = True\<rparr>"
proof -
  have d: "json_loads ''NaN'' = Inr (JFloat ''NaN'')"
    by (simp add: json_loads_eval)
  then have "\<not> parseable_as_json ''NaN''"
    by (simp add: parseable_as_json_def)
  moreover have "generate_strategy json_loads (responding [Some ''NaN'']) [] empty_state
        ''Silent Blender'' ''too loud''
       = \<lparr>state = empty_state,
          message = SchemaViolation [LineError [] model_type (JFloat ''NaN'')],
          stopped = True\<rparr>"
    by (simp add: generate_strategy_def request_strategy_responding parse_and_validate_def d
          StrategyOutput_model_validate_def on_exception_def)
  ultimately show ?thesis by (rule conjI)
qed

text \<open>
  C5. When the decoded object lacks \<^verbatim>\<open>main_pain_points\<close> or \<^verbatim>\<open>sales_angles\<close>, or an
  entry of \<^verbatim>\<open>sales_angles\<close> lacks one of its three fields, the handler reports
  \<open>SchemaViolation\<close>, and the report carries a \<open>missing\<close> line for each absent
  field, at the field's path.
\<close>

theorem missing_field_reports_SchemaViolation:
  assumes "product_name \<noteq> []" and "competitor_reviews \<noteq> []"
    and "create (completion_request (prompt product_name competitor_reviews sch))
           = Inr (Some text # others)"
    and "loads text = Inr (JDict d)"
    and "map_of d ''main_pain_points'' = None
       \<or> map_of d ''sales_angles'' = None
       \<or> (\<exists>items i e name. map_of d ''sales_angles'' = Some (JList items)
             \<and> i < length items \<and> items ! i = JDict e
             \<and> name \<in> {''avatar_name'', ''pain_point_addressed'', ''persuasive_copy''}
             \<and> map_of e name = None)"
  shows "\<exists>es. generate_strategy loads create sch st product_name competitor_reviews
                = \<lparr>state = st, message = SchemaViolation es, stopped = True\<rparr>
     \<and> (map_of d ''main_pain_points'' = None
           \<longrightarrow> LineError [Key ''main_pain_points''] missing (JDict d) \<in> set es)
     \<and> (map_of d ''sales_angles'' = None
           \<longrightarrow> LineError [Key ''sales_angles''] missing (JDict d) \<in> set es)
     \<and> (\<forall>items i e name. map_of d ''sales_angles'' = Some (JList items)
             \<and> i < length items \<and> items ! i = JDict e
             \<and> name \<in> {''avatar_name'', ''pain_point_addressed'', ''persuasive_copy''}
             \<and> map_of e name = None
           \<longrightarrow> LineError [Key ''sales_angles'', Idx i, Key name] missing (JDict e) \<in> set es)"
proof -
  from assms(5) obtain es where es: "StrategyOutput_model_validate (JDict d) = Inl es"
    using missing_top_field [of d] missing_angle_field [of d] by blast
  have run: "generate_strategy loads create sch st product_name competitor_reviews
                = \<lparr>state = st, message = SchemaViolation es, stopped = True\<rparr>"
    using assms(1-4) es
    by (simp add: generate_strategy_def request_strategy_def first_choice_content_def
          parse_and_validate_def on_exception_def)
  have "LineError [Key ''main_pain_points''] missing (JDict d) \<in> set es"
    if "map_of d ''main_pain_points'' = None"
    using missing_top_field [of d] that es by auto
  moreover have "LineError [Key ''sales_angles''] missing (JDict d) \<in> set es"
    if "map_of d ''sales_angles'' = None"
    using missing_top_field [of d] that es by auto
  moreover have "LineError [Key ''sales_angles'', Idx i, Key name] missing (JDict e) \<in> set es"
    if "map_of d ''sales_angles'' = Some (JList items)" "i < length items" "items ! i = JDict e"
       "name \<in> {''avatar_name'', ''pain_point_addressed'', ''persuasive_copy''}"
       "map_of e name = None" for items i e name
    using missing_angle_field [OF that] es by auto
  ultimately show ?thesis
    by (intro exI [of _ es] conjI impI allI run) (blast+)
qed

lemma incomplete_angle_decodes:
  "json_loads incomplete_angle_text
     = Inr (JDict [(''sales_angles'', JList
              [JDict [(''avatar_name'', JStr ''The Skeptic''),
                      (''pain_point_addressed'', JStr ''noise'')]])])"
  by (simp add: incomplete_angle_text_def json_loads_eval)

theorem missing_field_reports_SchemaViolation_witness:
  \<open>\<exists>es. generate_strategy json_loads
            (responding [Some incomplete_angle_text])
            [] scenario_A_state ''Silent Blender'' ''too loud''
          = \<lparr>state = scenario_A_state, message = SchemaViolation es, stopped = True\<rparr>
      \<and> LineError [Key ''main_pain_points''] missing
           (JDict [(''sales_angles'', JList
              [JDict [(''avatar_name'', JStr ''The Skeptic''),
                      (''pain_point_addressed'', JStr ''noise'')]])]) \<in> set es
      \<and> LineError [Key ''sales_angles'', Idx 0, Key ''persuasive_copy''] missing
           (JDict [(''avatar_name'', JStr ''The Skeptic''),
                   (''pain_point_addressed'', JStr ''noise'')]) \<in> set es\<close>
proof -
  let ?e = "[(''avatar_name'', JStr ''The Skeptic''), (''pain_point_addressed'', JStr ''noise'')]"
  let ?d = "[(''sales_angles'', JList [JDict ?e])]"
  have 1: "''Silent Blender'' \<noteq> []" and 2: "''too loud'' \<noteq> []"
    by simp_all
  have 3: "responding [Some incomplete_angle_text]
             (completion_request (prompt ''Silent Blender'' ''too loud'' []))
           = Inr [Some incomplete_angle_text]"
    by (simp add: responding_def)
  have 5: "map_of ?d ''main_pain_points'' = None
       \<or> map_of ?d ''sales_angles'' = None
       \<or> (\<exists>items i e name. map_of ?d ''sales_angles'' = Some (JList items)
             \<and> i < length items \<and> items ! i = JDict e
             \<and> name \<in> {''avatar_name'', ''pain_point_addressed'', ''persuasive_copy''}
             \<and> map_of e name = None)"
    by simp
  note missing_field_reports_SchemaViolation
      [where create = "responding [Some incomplete_angle_text]" and loads = json_loads
         and sch = "[]" and st = scenario_A_state and others = "[]" and d = ?d,
       OF 1 2 3 incomplete_angle_decodes 5]
  then
  obtain es where run: "generate_strategy json_loads
            (responding [Some incomplete_angle_text])
            [] scenario_A_state ''Silent Blender'' ''too loud''
          = \<lparr>state = scenario_A_state, message = SchemaViolation es, stopped = True\<rparr>"
    and top: "map_of ?d ''main_pain_points'' = None
           \<longrightarrow> LineError [Key ''main_pain_points''] missing (JDict ?d) \<in> set es"
    and entry: "\<forall>items i e name. map_of ?d ''sales_angles'' = Some (JList items)
             \<and> i < length items \<and> items ! i = JDict e
             \<and> name \<in> {''avatar_name'', ''pain_point_addressed'', ''persuasive_copy''}
             \<and> map_of e name = None
           \<longrightarrow> LineError [Key ''sales_angles'', Idx i, Key name] missing (JDict e) \<in> set es"
    by (elim exE conjE)
  from top have a: "LineError [Key ''main_pain_points''] missing (JDict ?d) \<in> set es"
    by simp
  from entry have "map_of ?d ''sales_angles'' = Some (JList [JDict ?e])
             \<and> 0 < length [JDict ?e] \<and> [JDict ?e] ! 0 = JDict ?e
             \<and> ''persuasive_copy'' \<in> {''avatar_name'', ''pain_point_addressed'', ''persuasive_copy''}
             \<and> map_of ?e ''persuasive_copy'' = None
           \<longrightarrow> LineError [Key ''sales_angles'', Idx 0, Key ''persuasive_copy''] missing (JDict ?e)
                 \<in> set es"
    by blast
  then have b: "LineError [Key ''sales_angles'', Idx 0, Key ''persuasive_copy''] missing (JDict ?e)
                 \<in> set es"
    by simp
  from run a b show ?thesis by blast
qed

section \<open>The lookup by avatar name\<close>

lemma angles_by_name_Nil: "angles_by_name [] = []"
  by (simp add: angles_by_name_def)

lemma angles_by_name_snoc:
  "angles_by_name (as @ [a]) = AList.update (avatar_name a) a (angles_by_name as)"
  by (simp add: angles_by_name_def)

lemma keys_angles_by_name: "fst ` set (angles_by_name as) = avatar_name ` set as"
  by (induction as rule: rev_induct)
     (auto simp: angles_by_name_Nil angles_by_name_snoc dom_update)

lemma map_of_angles_by_name:
  "map_of (angles_by_name as) name = List.find (\<lambda>a. avatar_name a = name) (rev as)"
  by (induction as rule: rev_induct)
     (simp_all add: angles_by_name_Nil angles_by_name_snoc update_conv')

lemma find_rev_last:
  assumes "j < length as" and "P (as ! j)"
    and "\<forall>k. j < k \<and> k < length as \<longrightarrow> \<not> P (as ! k)"
  shows "List.find P (rev as) = Some (as ! j)"
  using assms
proof (induction as rule: rev_induct)
  case Nil
  then show ?case by simp
next
  case (snoc x xs)
  show ?case
  proof (cases "j = length xs")
    case True
    with snoc.prems show ?thesis by simp
  next
    case False
    with snoc.prems(1) have j: "j < length xs" by simp
    from snoc.prems(3) have "j < length xs \<and> length xs < length (xs @ [x])
        \<longrightarrow> \<not> P ((xs @ [x]) ! length xs)" by (rule spec)
    with j have nx: "\<not> P x" by simp
    have "\<forall>k. j < k \<and> k < length xs \<longrightarrow> \<not> P (xs ! k)"
    proof (intro allI impI)
      fix k assume k: "j < k \<and> k < length xs"
      with snoc.prems(3) have "\<not> P ((xs @ [x]) ! k)" by simp
      with k show "\<not> P (xs ! k)" by (simp add: nth_append)
    qed
    with snoc.IH j snoc.prems(2) have "List.find P (rev xs) = Some (xs ! j)"
      by (simp add: nth_append)
    with nx j show ?thesis by (simp add: nth_append)
  qed
qed

text \<open>
  C6. After a success the stored lookup is the fold of the validated angles, in order, each
  assigned under its \<^verbatim>\<open>avatar_name\<close>. Its keys are exactly the names that occur; a name
  is mapped to the last angle of the sequence that bears it, so of two angles with one name
  the later one wins.
\<close>

theorem lookup_by_avatar_name_last_write_wins:
  assumes "message (generate_strategy loads create sch st pn cr) = Success"
  shows "\<exists>so d. strategy (state (generate_strategy loads create sch st pn cr)) = Some so
       \<and> angles (state (generate_strategy loads create sch st pn cr)) = Some d
       \<and> d = foldl (\<lambda>d angle. AList.update (avatar_name angle) angle d) [] (sales_angles so)
       \<and> set (angle_options d) = avatar_name ` set (sales_angles so)
       \<and> (\<forall>name. selected_angle d name
              = List.find (\<lambda>a. avatar_name a = name) (rev (sales_angles so)))
       \<and> (\<forall>j < length (sales_angles so).
             (\<forall>k. j < k \<and> k < length (sales_angles so)
                  \<longrightarrow> avatar_name (sales_angles so ! k) \<noteq> avatar_name (sales_angles so ! j))
             \<longrightarrow> selected_angle d (avatar_name (sales_angles so ! j))
                   = Some (sales_angles so ! j))"
proof -
  from assms obtain so where ne: "pn \<noteq> []" "cr \<noteq> []"
    and rs: "request_strategy loads create sch pn cr = Inr so"
    unfolding Success_iff by blast
  let ?d = "angles_by_name (sales_angles so)"
  have s: "strategy (state (generate_strategy loads create sch st pn cr)) = Some so"
    and a: "angles (state (generate_strategy loads create sch st pn cr)) = Some ?d"
    using ne rs by (simp_all add: generate_strategy_def)
  have f: "?d = foldl (\<lambda>d angle. AList.update (avatar_name angle) angle d) [] (sales_angles so)"
    by (simp add: angles_by_name_def)
  have k: "set (angle_options ?d) = avatar_name ` set (sales_angles so)"
    by (simp add: angle_options_def keys_angles_by_name)
  have l: "selected_angle ?d name
             = List.find (\<lambda>a. avatar_name a = name) (rev (sales_angles so))" for name
    by (simp add: selected_angle_def map_of_angles_by_name)
  have w: "selected_angle ?d (avatar_name (sales_angles so ! j)) = Some (sales_angles so ! j)"
    if "j < length (sales_angles so)"
      and "\<forall>k. j < k \<and> k < length (sales_angles so)
             \<longrightarrow> avatar_name (sales_angles so ! k) \<noteq> avatar_name (sales_angles so ! j)"
    for j
    unfolding l using that by (intro find_rev_last) simp_all
  from s a f k l w show ?thesis by blast
qed

lemma two_skeptics_decodes:
  "json_loads two_skeptics_text
   = Inr (JDict [(''main_pain_points'', JList []),
                 (''sales_angles'', JList
                    [JDict [(''avatar_name'', JStr ''The Skeptic''),
                            (''pain_point_addressed'', JStr ''noise''),
                            (''persuasive_copy'', JStr ''first'')],
                     JDict [(''avatar_name'', JStr ''The Skeptic''),
                            (''pain_point_addressed'', JStr ''leaks''),
                            (''persuasive_copy'', JStr ''second'')]])])"
  by (simp add: two_skeptics_text_def json_loads_eval)

lemma two_skeptics_succeeds:
  "generate_strategy json_loads (responding [Some two_skeptics_text]) [] empty_state
     ''Silent Blender'' ''too loud''
   = \<lparr>state = \<lparr>strategy = Some \<lparr>main_pain_points = [],
                                   sales_angles = [first_skeptic, second_skeptic]\<rparr>,
                 angles = Some [(''The Skeptic'', second_skeptic)]\<rparr>,
       message = Success, stopped = False\<rparr>"
  by (simp add: generate_strategy_def request_strategy_responding parse_and_validate_def
        two_skeptics_decodes model_validate_defs angles_by_name_def empty_state_def
        first_skeptic_def second_skeptic_def)

theorem lookup_by_avatar_name_last_write_wins_witness:
  "message (generate_strategy json_loads (responding [Some two_skeptics_text]) [] empty_state
              ''Silent Blender'' ''too loud'') = Success
   \<and> (\<exists>d. angles (state (generate_strategy json_loads (responding [Some two_skeptics_text]) []
                           empty_state ''Silent Blender'' ''too loud'')) = Some d
         \<and> set (angle_options d) = {''The Skeptic''}
         \<and> selected_angle d ''The Skeptic'' = Some second_skeptic)"
proof -
  let ?out = "generate_strategy json_loads (responding [Some two_skeptics_text]) [] empty_state
                ''Silent Blender'' ''too loud''"
  have m: "message ?out = Success"
    by (simp add: two_skeptics_succeeds)
  from lookup_by_avatar_name_last_write_wins [OF m]
  obtain so d where so: "strategy (state ?out) = Some so"
    and d: "angles (state ?out) = Some d"
    and keys: "set (angle_options d) = avatar_name ` set (sales_angles so)"
    and last: "\<forall>j < length (sales_angles so).
             (\<forall>k. j < k \<and> k < length (sales_angles so)
                  \<longrightarrow> avatar_name (sales_angles so ! k) \<noteq> avatar_name (sales_angles so ! j))
             \<longrightarrow> selected_angle d (avatar_name (sales_angles so ! j))
                   = Some (sales_angles so ! j)"
    by blast
  from so have as: "sales_angles so = [first_skeptic, second_skeptic]"
    by (auto simp: two_skeptics_succeeds)
  from keys have k: "set (angle_options d) = {''The Skeptic''}"
    by (simp add: as first_skeptic_def second_skeptic_def)
  from last have "1 < length (sales_angles so) \<longrightarrow>
             (\<forall>k. 1 < k \<and> k < length (sales_angles so)
                  \<longrightarrow> avatar_name (sales_angles so ! k) \<noteq> avatar_name (sales_angles so ! 1))
             \<longrightarrow> selected_angle d (avatar_name (sales_angles so ! 1))
                   = Some (sales_angles so ! 1)"
    by (rule spec)
  then have "selected_angle d ''The Skeptic'' = Some second_skeptic"
    by (simp add: as second_skeptic_def)
  with m d k show ?thesis by blast
qed

section \<open>Decoding what the encoder wrote\<close>

text \<open>A string: the escapes the encoder writes are the ones the decoder reads back.\<close>

lemma hex_digit_hex_char: "d < 16 \<Longrightarrow> hex_digit (hex_char d) = Some d"
proof -
  assume "d < 16"
  then have "d = 0 \<or> d = 1 \<or> d = 2 \<or> d = 3 \<or> d = 4 \<or> d = 5 \<or> d = 6 \<or> d = 7
      \<or> d = 8 \<or> d = 9 \<or> d = 10 \<or> d = 11 \<or> d = 12 \<or> d = 13 \<or> d = 14 \<or> d = 15"
    by arith
  then show ?thesis
    by (elim disjE) (simp_all add: hex_char_def hex_digit_def)
qed

lemma hex_digit_zero: "hex_digit CHR ''0'' = Some 0"
  by (simp add: hex_digit_def)

lemma hex4_control: "n < 32 \<Longrightarrow> hex4 CHR ''0'' CHR ''0'' (hex_char (n div 16)) (hex_char (n mod 16)) = Some n"
proof -
  assume n: "n < 32"
  then have "n div 16 < 16" "n mod 16 < 16" by simp_all
  then show ?thesis
    by (simp add: hex4_def hex_digit_zero hex_digit_hex_char)
qed

lemma join_units_ascii: "n < 128 \<Longrightarrow> join_units (U16 n # us) = char_of n # join_units us"
proof (cases us)
  case Nil
  assume "n < 128" then show ?thesis using Nil by (simp add: utf8_def)
next
  case (Cons u us')
  assume "n < 128" then show ?thesis using Cons by (cases u) (simp_all add: utf8_def)
qed

lemma scanstring_escape_char:
  assumes "scanstring t = Some (us, r)"
  shows "\<exists>u. scanstring (escape_char c @ t) = Some (u # us, r) \<and> join_units (u # us) = c # join_units us"
proof -
  consider "c = CHR 0x22" | "c = CHR 0x5C" | "c = CHR 0x08" | "c = CHR 0x0C" | "c = CHR 0x0A"
    | "c = CHR 0x0D" | "c = CHR 0x09"
    | "c \<notin> {CHR 0x22, CHR 0x5C, CHR 0x08, CHR 0x0C, CHR 0x0A, CHR 0x0D, CHR 0x09}" "of_char c < (32::nat)"
    | "c \<notin> {CHR 0x22, CHR 0x5C, CHR 0x08, CHR 0x0C, CHR 0x0A, CHR 0x0D, CHR 0x09}" "\<not> of_char c < (32::nat)"
    by blast
  then show ?thesis
  proof cases
    case 8
    then have e: "escape_char c = [CHR 0x5C, CHR ''u'', CHR ''0'', CHR ''0'',
         hex_char (of_char c div 16), hex_char (of_char c mod 16)]"
      by (simp add: escape_char_def)
    have "scanstring (escape_char c @ t) = Some (U16 (of_char c) # us, r)"
      unfolding e using assms 8(2) by (simp add: hex4_control)
    moreover have "join_units (U16 (of_char c) # us) = c # join_units us"
      using 8(2) by (simp add: join_units_ascii)
    ultimately show ?thesis by blast
  next
    case 9
    then have e: "escape_char c = [c]"
      by (simp add: escape_char_def)
    have "scanstring (escape_char c @ t) = Some (Lit c # us, r)"
      unfolding e using assms 9 by simp
    then show ?thesis by simp
  qed (use assms in \<open>simp_all add: escape_char_def backslash_def\<close>)
qed

lemma scanstring_escaped:
  "\<exists>us. scanstring (concat (map escape_char s) @ CHR 0x22 # rest) = Some (us, rest)
        \<and> join_units us = s"
proof (induction s)
  case Nil
  show ?case by simp
next
  case (Cons c s)
  then obtain us where us: "scanstring (concat (map escape_char s) @ CHR 0x22 # rest) = Some (us, rest)"
    and j: "join_units us = s" by blast
  from scanstring_escape_char [OF us, of c] j show ?case by auto
qed

text \<open>
  A value: the decoder, started on the text of a value followed by anything, arrives at
  the state it is in after reading that value, with the same stack and the rest of the
  text. The items of an array and the members of an object are read one by one.
\<close>

lemma skip_ws_whitespace: "list_all is_ws w \<Longrightarrow> skip_ws (w @ s) = skip_ws s"
  by (simp add: skip_ws_def dropWhile_append list_all_iff)

lemma skip_ws_other: "\<not> is_ws c \<Longrightarrow> skip_ws (c # s) = c # s"
  by (simp add: skip_ws_def)

lemma separated_Cons: "separated sep (x # xs) = x @ concat (map (\<lambda>y. sep @ y) xs)"
  by (induction xs arbitrary: x) simp_all

lemma update_fresh: "key \<notin> fst ` set d \<Longrightarrow> AList.update key v d = d @ [(key, v)]"
  by (induction d) auto

lemma json_dumps_head:
  assumes "number_free j"
  shows "\<exists>c cs. json_dumps l j k = c # cs
           \<and> c \<in> {CHR 0x22, CHR ''['', CHR ''{'', CHR ''n'', CHR ''t'', CHR ''f''}"
  using assms by (cases j) (auto simp: encode_string_def)

lemma skip_ws_json_dumps:
  assumes "number_free j"
  shows "skip_ws (json_dumps l j k @ t) = json_dumps l j k @ t"
proof -
  from json_dumps_head [OF assms] obtain c cs where "json_dumps l j k = c # cs"
    and "c \<in> {CHR 0x22, CHR ''['', CHR ''{'', CHR ''n'', CHR ''t'', CHR ''f''}"
    by blast
  then show ?thesis by (auto simp: skip_ws_other is_ws_def)
qed

lemma decode_value_encode_string:
  "decode_value st (encode_string s @ rest) = decode_after st (JStr s) rest"
  using scanstring_escaped [of s rest] by (auto simp: encode_string_def)

lemma scan_key_encode_string:
  assumes "list_all is_ws w"
  shows "scan_key (encode_string key @ CHR '':'' # w @ s) = Some (key, skip_ws s)"
  using scanstring_escaped [of key "CHR '':'' # w @ s"] assms
  by (auto simp: encode_string_def scan_key_def skip_ws_other is_ws_def skip_ws_whitespace)

lemma decode_value_literals:
  "decode_value st (''null'' @ rest) = decode_after st JNull rest"
  "decode_value st (''true'' @ rest) = decode_after st (JBool True) rest"
  "decode_value st (''false'' @ rest) = decode_after st (JBool False) rest"
  by (simp_all add: scan_scalar_def orelse_def literal_def strip_prefix_def)

lemma decode_array_items:
  assumes ok: "layout_ok l"
    and IH: "\<And>y st rest. y \<in> set xs \<Longrightarrow>
               decode_value st (json_dumps l y (Suc k) @ rest) = decode_after st y rest"
    and nf: "list_all number_free xs"
  shows "decode_after (InArray acc # st) x
           (concat (map (\<lambda>y. CHR '','' # after_comma l (Suc k) @ json_dumps l y (Suc k)) xs)
            @ before_close l k @ CHR '']'' # rest)
         = decode_after st (JList (rev acc @ x # xs)) rest"
  using IH nf
proof (induction xs arbitrary: acc x)
  case Nil
  from ok have "list_all is_ws (before_close l k)" by (simp add: layout_ok_def)
  then have "skip_ws (before_close l k @ CHR '']'' # rest) = CHR '']'' # rest"
    by (simp add: skip_ws_whitespace skip_ws_other is_ws_def)
  then show ?case by simp
next
  case (Cons y ys)
  from ok have ws: "list_all is_ws (after_comma l (Suc k))" by (simp add: layout_ok_def)
  let ?tail = "concat (map (\<lambda>y. CHR '','' # after_comma l (Suc k) @ json_dumps l y (Suc k)) ys)
            @ before_close l k @ CHR '']'' # rest"
  from Cons.prems(2) have nfy: "number_free y" and nfys: "list_all number_free ys" by simp_all
  have "decode_after (InArray acc # st) x
          (CHR '','' # after_comma l (Suc k) @ json_dumps l y (Suc k) @ ?tail)
        = decode_value (InArray (x # acc) # st)
            (skip_ws (after_comma l (Suc k) @ json_dumps l y (Suc k) @ ?tail))"
    by (simp add: skip_ws_other is_ws_def)
  also have "\<dots> = decode_value (InArray (x # acc) # st) (json_dumps l y (Suc k) @ ?tail)"
    by (simp add: skip_ws_whitespace [OF ws] skip_ws_json_dumps [OF nfy])
  also have "\<dots> = decode_after (InArray (x # acc) # st) y ?tail"
    by (rule Cons.prems(1)) simp
  also have "\<dots> = decode_after st (JList (rev (x # acc) @ y # ys)) rest"
    by (rule Cons.IH) (use Cons.prems(1) nfys in simp_all)
  finally show ?case by simp
qed

lemma decode_object_members:
  assumes ok: "layout_ok l"
    and IH: "\<And>y st rest. y \<in> snd ` set kvs \<Longrightarrow>
               decode_value st (json_dumps l y (Suc k) @ rest) = decode_after st y rest"
    and nf: "list_all number_free (map snd kvs)"
    and dist: "distinct (map fst (d @ (key, v) # kvs))"
  shows "decode_after (InObject d key # st) v
           (concat (map (\<lambda>(key', v'). CHR '','' # after_comma l (Suc k) @ encode_string key'
                           @ CHR '':'' # after_colon l @ json_dumps l v' (Suc k)) kvs)
            @ before_close l k @ CHR ''}'' # rest)
         = decode_after st (JDict (d @ (key, v) # kvs)) rest"
  using IH nf dist
proof (induction kvs arbitrary: d key v)
  case Nil
  from ok have "list_all is_ws (before_close l k)" by (simp add: layout_ok_def)
  then have "skip_ws (before_close l k @ CHR ''}'' # rest) = CHR ''}'' # rest"
    by (simp add: skip_ws_whitespace skip_ws_other is_ws_def)
  moreover from Nil.prems(3) have "AList.update key v d = d @ [(key, v)]"
    by (intro update_fresh) auto
  ultimately show ?case by simp
next
  case (Cons kv kvs)
  obtain key' v' where kv: "kv = (key', v')" by (cases kv)
  from ok have ws: "list_all is_ws (after_comma l (Suc k))"
    and wc: "list_all is_ws (after_colon l)" by (simp_all add: layout_ok_def)
  let ?tail = "concat (map (\<lambda>(key', v'). CHR '','' # after_comma l (Suc k) @ encode_string key'
                           @ CHR '':'' # after_colon l @ json_dumps l v' (Suc k)) kvs)
            @ before_close l k @ CHR ''}'' # rest"
  from Cons.prems(2) kv have nfv: "number_free v'"
    and nfs: "list_all number_free (map snd kvs)" by simp_all
  from Cons.prems(3) have fresh: "AList.update key v d = d @ [(key, v)]"
    by (intro update_fresh) auto
  from Cons.prems(3) kv have dist': "distinct (map fst ((d @ [(key, v)]) @ (key', v') # kvs))"
    by simp
  have q: "skip_ws (encode_string key' @ t) = encode_string key' @ t" for t
    by (simp add: encode_string_def skip_ws_other is_ws_def)
  have "decode_after (InObject d key # st) v
          (CHR '','' # after_comma l (Suc k) @ encode_string key'
             @ CHR '':'' # after_colon l @ json_dumps l v' (Suc k) @ ?tail)
        = (case scan_key (skip_ws (after_comma l (Suc k) @ encode_string key'
                            @ CHR '':'' # after_colon l @ json_dumps l v' (Suc k) @ ?tail)) of
             None \<Rightarrow> None
           | Some (k', r') \<Rightarrow> decode_value (InObject (AList.update key v d) k' # st) r')"
    by (simp add: skip_ws_other is_ws_def)
  also have "\<dots> = decode_value (InObject (d @ [(key, v)]) key' # st)
                      (json_dumps l v' (Suc k) @ ?tail)"
    by (simp add: skip_ws_whitespace [OF ws] q scan_key_encode_string [OF wc]
          skip_ws_json_dumps [OF nfv] fresh)
  also have "\<dots> = decode_after (InObject (d @ [(key, v)]) key' # st) v' ?tail"
    by (rule Cons.prems(1)) (simp add: kv)
  also have "\<dots> = decode_after st (JDict ((d @ [(key, v)]) @ (key', v') # kvs)) rest"
    by (rule Cons.IH) (use Cons.prems(1) nfs dist' in simp_all)
  finally show ?case by (simp add: kv)
qed

lemma decode_value_json_dumps:
  assumes ok: "layout_ok l"
  shows "number_free j \<Longrightarrow> decode_value st (json_dumps l j k @ rest) = decode_after st j rest"
proof (induction j arbitrary: st rest k rule: number_free.induct)
  case 1
  show ?case by (simp add: decode_value_literals [simplified])
next
  case (2 b)
  show ?case by (cases b) (simp_all add: decode_value_literals [simplified])
next
  case (3 i)
  then show ?case by simp
next
  case (4 f)
  then show ?case by simp
next
  case (5 s)
  show ?case by (simp add: decode_value_encode_string)
next
  case (6 xs)
  show ?case
  proof (cases xs)
    case Nil
    then show ?thesis by (simp add: skip_ws_other is_ws_def)
  next
    case (Cons x xs')
    from ok have wo: "list_all is_ws (after_open l (Suc k))" by (simp add: layout_ok_def)
    from "6.prems" Cons have nfx: "number_free x" and nfs: "list_all number_free xs'"
      by simp_all
    let ?tail = "concat (map (\<lambda>y. CHR '','' # after_comma l (Suc k) @ json_dumps l y (Suc k)) xs')
            @ before_close l k @ CHR '']'' # rest"
    have IH: "decode_value st (json_dumps l y (Suc k) @ rest) = decode_after st y rest"
      if "y \<in> set xs" for y st rest
      using "6.IH" [OF that] "6.prems" that by (simp add: list_all_iff)
    from json_dumps_head [OF nfx, of l "Suc k"] obtain c cs
      where hd: "json_dumps l x (Suc k) = c # cs"
        and c: "c \<in> {CHR 0x22, CHR ''['', CHR ''{'', CHR ''n'', CHR ''t'', CHR ''f''}"
      by blast
    have "json_dumps l (JList xs) k @ rest
          = CHR ''['' # after_open l (Suc k) @ json_dumps l x (Suc k) @ ?tail"
      by (simp add: Cons separated_Cons comp_def)
    moreover have "skip_ws (after_open l (Suc k) @ json_dumps l x (Suc k) @ ?tail)
          = c # cs @ ?tail"
      using skip_ws_json_dumps [OF nfx, of l "Suc k" ?tail]
      by (simp add: skip_ws_whitespace [OF wo] hd)
    ultimately have "decode_value st (json_dumps l (JList xs) k @ rest)
          = decode_value (InArray [] # st) (json_dumps l x (Suc k) @ ?tail)"
      using c by (auto simp: hd)
    also have "\<dots> = decode_after (InArray [] # st) x ?tail"
      by (rule IH) (simp add: Cons)
    also have "\<dots> = decode_after st (JList (rev [] @ x # xs')) rest"
      by (rule decode_array_items [OF ok _ nfs]) (rule IH, simp add: Cons)
    finally show ?thesis by (simp add: Cons)
  qed
next
  case (7 kvs)
  show ?case
  proof (cases kvs)
    case Nil
    then show ?thesis by (simp add: skip_ws_other is_ws_def)
  next
    case (Cons kv kvs')
    obtain key v where kv: "kv = (key, v)" by (cases kv)
    from ok have wo: "list_all is_ws (after_open l (Suc k))"
      and wc: "list_all is_ws (after_colon l)" by (simp_all add: layout_ok_def)
    from "7.prems" Cons kv have nfv: "number_free v"
      and nfs: "list_all number_free (map snd kvs')"
      and dist: "distinct (map fst ([] @ (key, v) # kvs'))"
      by simp_all
    let ?tail = "concat (map (\<lambda>(key', v'). CHR '','' # after_comma l (Suc k) @ encode_string key'
                           @ CHR '':'' # after_colon l @ json_dumps l v' (Suc k)) kvs')
            @ before_close l k @ CHR ''}'' # rest"
    have IH: "decode_value st (json_dumps l y (Suc k) @ rest) = decode_after st y rest"
      if "y \<in> snd ` set kvs" for y st rest
      using "7.IH" [of y] "7.prems" that by (auto simp: list_all_iff)
    have "json_dumps l (JDict kvs) k @ rest
          = CHR ''{'' # after_open l (Suc k) @ encode_string key
              @ CHR '':'' # after_colon l @ json_dumps l v (Suc k) @ ?tail"
      by (simp add: Cons kv separated_Cons comp_def case_prod_unfold)
    moreover have "skip_ws (after_open l (Suc k) @ encode_string key
              @ CHR '':'' # after_colon l @ json_dumps l v (Suc k) @ ?tail)
          = CHR 0x22 # concat (map escape_char key) @ CHR 0x22
              # CHR '':'' # after_colon l @ json_dumps l v (Suc k) @ ?tail"
      by (simp add: skip_ws_whitespace [OF wo] encode_string_def skip_ws_other is_ws_def)
    moreover have "scan_key (CHR 0x22 # concat (map escape_char key) @ CHR 0x22
              # CHR '':'' # after_colon l @ json_dumps l v (Suc k) @ ?tail)
          = Some (key, json_dumps l v (Suc k) @ ?tail)"
      using scan_key_encode_string [OF wc, of key "json_dumps l v (Suc k) @ ?tail"]
      by (simp add: encode_string_def skip_ws_json_dumps [OF nfv])
    ultimately have "decode_value st (json_dumps l (JDict kvs) k @ rest)
          = decode_value (InObject [] key # st) (json_dumps l v (Suc k) @ ?tail)"
      by simp
    also have "\<dots> = decode_after (InObject [] key # st) v ?tail"
      by (rule IH) (simp add: Cons kv)
    also have "\<dots> = decode_after st (JDict ([] @ (key, v) # kvs')) rest"
      by (rule decode_object_members [OF ok _ nfs dist]) (rule IH, simp add: Cons)
    finally show ?thesis by (simp add: Cons kv)
  qed
qed

lemma json_loads_json_dumps:
  assumes "layout_ok l" and "number_free j"
  shows "json_loads (json_dumps l j 0) = Inr j"
proof -
  from json_dumps_head [OF assms(2), of l 0] obtain c cs
    where hd: "json_dumps l j 0 = c # cs"
      and c: "c \<in> {CHR 0x22, CHR ''['', CHR ''{'', CHR ''n'', CHR ''t'', CHR ''f''}"
    by blast
  from c have bom: "take 3 (json_dumps l j 0) \<noteq> [CHR 0xEF, CHR 0xBB, CHR 0xBF]"
    by (auto simp: hd)
  have "skip_ws (json_dumps l j 0) = json_dumps l j 0"
    using skip_ws_json_dumps [OF assms(2), of l 0 "[]"] by simp
  moreover have "decode_value [] (json_dumps l j 0) = Some j"
    using decode_value_json_dumps [OF assms, of "[]" 0 "[]"] by (simp add: skip_ws_def)
  ultimately show ?thesis using bom by (simp add: json_loads_def)
qed

lemma layout_ok_compact: "layout_ok compact"
  by (simp add: layout_ok_def compact_def)

lemma layout_ok_indented: "layout_ok (indented n)"
  by (simp add: layout_ok_def indented_def is_ws_def list_all_iff)

lemma SalesAngle_validate_dump: "SalesAngle_model_validate (SalesAngle_model_dump a) = Inr a"
  by (simp add: SalesAngle_model_validate_Inr_iff SalesAngle_model_dump_def)

lemma StrategyOutput_validate_dump:
  "StrategyOutput_model_validate (StrategyOutput_model_dump so) = Inr so"
proof -
  have "list_all2 (\<lambda>x y. x = JStr y) (map JStr (main_pain_points so)) (main_pain_points so)"
    by (simp add: list_all2_map1 list_all2_same)
  moreover have "list_all2 (\<lambda>x y. SalesAngle_model_validate x = Inr y)
      (map SalesAngle_model_dump (sales_angles so)) (sales_angles so)"
    by (simp add: list_all2_map1 list_all2_same SalesAngle_validate_dump)
  ultimately show ?thesis
    by (simp add: StrategyOutput_model_validate_Inr_iff StrategyOutput_model_dump_def)
qed

lemma number_free_model_dump: "number_free (StrategyOutput_model_dump so)"
  by (simp add: StrategyOutput_model_dump_def SalesAngle_model_dump_def list_all_iff)

lemma number_free_shopify_json_data: "number_free (shopify_json_data angle product_name)"
  by (simp add: shopify_json_data_def)

lemma json_output_decodes:
  "json_loads (json_output angle product_name) = Inr (shopify_json_data angle product_name)"
  unfolding json_output_def
  by (rule json_loads_json_dumps [OF layout_ok_indented number_free_shopify_json_data])

lemma scenario_A_dump_json:
  \<open>StrategyOutput_model_dump_json scenario_A_output =
     ''{"main_pain_points":["noise","leaks","price"],"sales_angles":[{"avatar_name":"The Skeptic","pain_point_addressed":"noise","persuasive_copy":"..."}]}''\<close>
  by (simp add: StrategyOutput_model_dump_json_def StrategyOutput_model_dump_def
        SalesAngle_model_dump_def scenario_A_output_def the_skeptic_def compact_def
        encode_string_def escape_char_def)

section \<open>The round trip\<close>

text \<open>
  C7. A \<^verbatim>\<open>StrategyOutput\<close> that is serialised to JSON and passed through the two steps
  of the response validator (decoding, then validation) comes back as it was: the
  validation of its dump succeeds with the output itself, the decoder reads the dump back
  from the text, and so parsing and validating the text yields the output. This holds
  for every output, whatever its strings are.
\<close>

theorem model_dump_json_round_trip:
  "StrategyOutput_model_validate (StrategyOutput_model_dump so) = Inr so
   \<and> json_loads (StrategyOutput_model_dump_json so) = Inr (StrategyOutput_model_dump so)
   \<and> parse_and_validate json_loads (Some (StrategyOutput_model_dump_json so)) = Inr so"
proof -
  have "json_loads (StrategyOutput_model_dump_json so) = Inr (StrategyOutput_model_dump so)"
    unfolding StrategyOutput_model_dump_json_def
    by (rule json_loads_json_dumps [OF layout_ok_compact number_free_model_dump])
  then show ?thesis
    by (simp add: parse_and_validate_def StrategyOutput_validate_dump)
qed

theorem model_dump_json_round_trip_witness:
  \<open>parse_and_validate json_loads
     (Some ''{"main_pain_points":["noise","leaks","price"],"sales_angles":[{"avatar_name":"The Skeptic","pain_point_addressed":"noise","persuasive_copy":"..."}]}'')
   = Inr scenario_A_output\<close>
  using model_dump_json_round_trip [of scenario_A_output]
  by (simp only: scenario_A_dump_json)

section \<open>The prompt and the hero template\<close>

text \<open>
  C8. The prompt contains the product name and the reviews as contiguous, unmodified
  substrings, whatever the two strings and the schema text are.
\<close>

theorem prompt_contains_inputs_verbatim:
  "sublist product_name (prompt product_name competitor_reviews sch)
   \<and> sublist competitor_reviews (prompt product_name competitor_reviews sch)"
proof
  show "sublist product_name (prompt product_name competitor_reviews sch)"
    unfolding prompt_def by (rule sublist_appendI)
  have "prompt product_name competitor_reviews sch
        = (prompt_opening @ product_name @ prompt_reviews_heading) @ competitor_reviews
          @ (prompt_instructions @ product_name @ prompt_schema_heading @ sch @ prompt_closing)"
    by (simp add: prompt_def)
  then show "sublist competitor_reviews (prompt product_name competitor_reviews sch)"
    by (simp only: sublist_appendI)
qed

text \<open>
  C9. The text shown to the user is a JSON document: it decodes to the template. The
  template is an object of type \<^verbatim>\<open>hero_section\<close> with four settings. The default of
  \<^verbatim>\<open>heading\<close> is the title, of which the avatar name and the product name are
  substrings; the default of \<^verbatim>\<open>text\<close> is the persuasive copy itself;
  \<^verbatim>\<open>button_link\<close> is of type \<^verbatim>\<open>url\<close> and has no default; the default of
  \<^verbatim>\<open>button_label\<close> is the fixed label.
\<close>

theorem hero_template_defaults:
  "json_loads (json_output angle product_name) = Inr (shopify_json_data angle product_name)
   \<and> (\<exists>top heading body link label title.
     shopify_json_data angle product_name = JDict top
   \<and> map_of top ''type'' = Some (JStr ''hero_section'')
   \<and> map_of top ''settings'' = Some (JList [JDict heading, JDict body, JDict link, JDict label])
   \<and> map_of heading ''id'' = Some (JStr ''heading'')
   \<and> map_of heading ''type'' = Some (JStr ''text'')
   \<and> map_of heading ''default'' = Some (JStr title)
   \<and> sublist (avatar_name angle) title \<and> sublist product_name title
   \<and> map_of body ''id'' = Some (JStr ''text'')
   \<and> map_of body ''type'' = Some (JStr ''textarea'')
   \<and> map_of body ''default'' = Some (JStr (persuasive_copy angle))
   \<and> map_of link ''id'' = Some (JStr ''button_link'')
   \<and> map_of link ''type'' = Some (JStr ''url'')
   \<and> map_of link ''default'' = None
   \<and> map_of label ''id'' = Some (JStr ''button_label'')
   \<and> map_of label ''type'' = Some (JStr ''text'')
   \<and> map_of label ''default'' = Some (JStr ''Comprar Ahora''))"
proof -
  have 1: "sublist (avatar_name angle) (shopify_title angle product_name)"
    unfolding shopify_title_def by (rule sublist_appendI)
  have "shopify_title angle product_name
        = ([CHR 0xC2, CHR 0xA1] @ avatar_name angle @ '' Resuelto! El '') @ product_name"
    by (simp add: shopify_title_def)
  then have 2: "sublist product_name (shopify_title angle product_name)"
    by (simp only: sublist_append_leftI)
  let ?heading = "[(''type'', JStr ''text''), (''id'', JStr ''heading''),
                   (''label'', JStr ''Heading''),
                   (''default'', JStr (shopify_title angle product_name))]"
  let ?body = "[(''type'', JStr ''textarea''), (''id'', JStr ''text''),
                (''label'', JStr ''Text''), (''default'', JStr (persuasive_copy angle))]"
  let ?link = "[(''type'', JStr ''url''), (''id'', JStr ''button_link''),
                (''label'', JStr ''Button link'')]"
  let ?label = "[(''type'', JStr ''text''), (''id'', JStr ''button_label''),
                 (''label'', JStr ''Button label''), (''default'', JStr ''Comprar Ahora'')]"
  let ?top = "[(''type'', JStr ''hero_section''),
               (''name'', JStr ''Hero Section - Generated by AI''),
               (''settings'', JList [JDict ?heading, JDict ?body, JDict ?link, JDict ?label])]"
  have top: "shopify_json_data angle product_name = JDict ?top"
    by (simp add: shopify_json_data_def)
  have t: "map_of ?top ''type'' = Some (JStr ''hero_section'')"
    and s: "map_of ?top ''settings''
            = Some (JList [JDict ?heading, JDict ?body, JDict ?link, JDict ?label])"
    by simp_all
  have h: "map_of ?heading ''id'' = Some (JStr ''heading'')"
      "map_of ?heading ''type'' = Some (JStr ''text'')"
      "map_of ?heading ''default'' = Some (JStr (shopify_title angle product_name))"
    by simp_all
  have b: "map_of ?body ''id'' = Some (JStr ''text'')"
      "map_of ?body ''type'' = Some (JStr ''textarea'')"
      "map_of ?body ''default'' = Some (JStr (persuasive_copy angle))"
    by simp_all
  have k: "map_of ?link ''id'' = Some (JStr ''button_link'')"
      "map_of ?link ''type'' = Some (JStr ''url'')"
      "map_of ?link ''default'' = None"
    by simp_all
  have l: "map_of ?label ''id'' = Some (JStr ''button_label'')"
      "map_of ?label ''type'' = Some (JStr ''text'')"
      "map_of ?label ''default'' = Some (JStr ''Comprar Ahora'')"
    by simp_all
  have "\<exists>top heading body link label title.
     shopify_json_data angle product_name = JDict top
   \<and> map_of top ''type'' = Some (JStr ''hero_section'')
   \<and> map_of top ''settings'' = Some (JList [JDict heading, JDict body, JDict link, JDict label])
   \<and> map_of heading ''id'' = Some (JStr ''heading'')
   \<and> map_of heading ''type'' = Some (JStr ''text'')
   \<and> map_of heading ''default'' = Some (JStr title)
   \<and> sublist (avatar_name angle) title \<and> sublist product_name title
   \<and> map_of body ''id'' = Some (JStr ''text'')
   \<and> map_of body ''type'' = Some (JStr ''textarea'')
   \<and> map_of body ''default'' = Some (JStr (persuasive_copy angle))
   \<and> map_of link ''id'' = Some (JStr ''button_link'')
   \<and> map_of link ''type'' = Some (JStr ''url'')
   \<and> map_of link ''default'' = None
   \<and> map_of label ''id'' = Some (JStr ''button_label'')
   \<and> map_of label ''type'' = Some (JStr ''text'')
   \<and> map_of label ''default'' = Some (JStr ''Comprar Ahora'')"
    by (intro exI [of _ ?top] exI [of _ ?heading] exI [of _ ?body] exI [of _ ?link]
          exI [of _ ?label] exI [of _ "shopify_title angle product_name"] conjI)
       (rule top t s h b k l 1 2)+
  with json_output_decodes show ?thesis by (rule conjI)
qed

end
